theory Spec2Isabelle
  imports Main
begin

section \<open>JavaScript values and string primitives\<close>

text \<open>
  The extension is written in JavaScript. A JavaScript string is a sequence of UTF-16
  code units; the model represents it as an Isabelle \<open>string\<close>, whose characters are the
  code units 0..255 (the Latin-1 range), so \<open>charCodeAt\<close> is \<open>of_char\<close> and \<open>length\<close> counts
  code units. Numbers that the code handles (risk scores, hash values, positions) are
  integers well below \<open>2 ^ 53\<close>, where JavaScript's doubles are exact; they are modelled
  as \<open>int\<close>.

  The operators \<open>&&\<close> and \<open>||\<close> return one of their operands, not a boolean, and several
  functions of the extension return such an operand. \<open>jsval\<close> holds the values that flow
  through them, \<open>truthy\<close> is JavaScript's ToBoolean.
\<close>

datatype jsval = JUndefined | JNull | JBool bool | JNum int | JStr string

fun truthy :: "jsval \<Rightarrow> bool" where
  "truthy JUndefined = False"
| "truthy JNull = False"
| "truthy (JBool b) = b"
| "truthy (JNum n) = (n \<noteq> 0)"
| "truthy (JStr s) = (s \<noteq> [])"

definition jsOr :: "jsval \<Rightarrow> jsval \<Rightarrow> jsval" where
  "jsOr a b = (if truthy a then a else b)"

definition jsAnd :: "jsval \<Rightarrow> jsval \<Rightarrow> jsval" where
  "jsAnd a b = (if truthy a then b else a)"

text \<open>
  A property that holds a string or is absent is a \<open>string option\<close>: the code only tests
  such a property for truthiness, where \<open>undefined\<close> and \<open>null\<close> behave alike. A numeric
  property is also compared with numbers, where they differ (\<open>undefined < k\<close> is false,
  \<open>null < k\<close> is \<open>0 < k\<close>), so it is a \<open>jsnum\<close>: absent, \<open>null\<close>, or a number.
\<close>

datatype jsnum = NumUndefined | NumNull | Num int

definition strVal :: "string option \<Rightarrow> jsval" where
  "strVal v = (case v of None \<Rightarrow> JUndefined | Some s \<Rightarrow> JStr s)"

definition numVal :: "jsnum \<Rightarrow> jsval" where
  "numVal v = (case v of NumUndefined \<Rightarrow> JUndefined | NumNull \<Rightarrow> JNull | Num n \<Rightarrow> JNum n)"

text \<open>\<open>x < k\<close> for a numeric property.\<close>

definition numLess :: "jsnum \<Rightarrow> int \<Rightarrow> bool" where
  "numLess v k = (case v of NumUndefined \<Rightarrow> False | NumNull \<Rightarrow> 0 < k | Num n \<Rightarrow> n < k)"

definition charCode :: "char \<Rightarrow> int" where
  "charCode c = of_char c"

text \<open>
  \<open>String.prototype.toLowerCase\<close> on code units 0..255: the ASCII capitals and the
  Latin-1 capitals U+00C0..U+00DE (without the multiplication sign U+00D7) move up by 32.
\<close>

definition toLowerChar :: "char \<Rightarrow> char" where
  "toLowerChar c =
     (let n = charCode c in
      if (65 \<le> n \<and> n \<le> 90) \<or> (192 \<le> n \<and> n \<le> 222 \<and> n \<noteq> 215)
      then char_of (n + 32) else c)"

definition toLowerCase :: "string \<Rightarrow> string" where
  "toLowerCase s = map toLowerChar s"

text \<open>\<open>String.prototype.startsWith\<close> and \<open>String.prototype.includes\<close>.\<close>

fun startsWith :: "string \<Rightarrow> string \<Rightarrow> bool" where
  "startsWith s [] = True"
| "startsWith [] (p # ps) = False"
| "startsWith (c # s) (p # ps) = (c = p \<and> startsWith s ps)"

fun includes_str :: "string \<Rightarrow> string \<Rightarrow> bool" where
  "includes_str [] k = (k = [])"
| "includes_str (c # s) k = (startsWith (c # s) k \<or> includes_str s k)"

text \<open>\<open>s.slice(0, n)\<close> for \<open>n \<ge> 0\<close>.\<close>

definition slice0 :: "string \<Rightarrow> nat \<Rightarrow> string" where
  "slice0 s n = take n s"

text \<open>
  White space and line terminators among the code units 0..255 (tab, line feed, vertical
  tab, form feed, carriage return, space, no-break space): the class \<open>\s\<close> of a regular
  expression and what \<open>String.prototype.trim\<close> removes at both ends.
\<close>

definition isSpace :: "char \<Rightarrow> bool" where
  "isSpace c = (let n = charCode c in (9 \<le> n \<and> n \<le> 13) \<or> n = 32 \<or> n = 160)"

definition trim :: "string \<Rightarrow> string" where
  "trim s = rev (dropWhile isSpace (rev (dropWhile isSpace s)))"

text \<open>
  \<open>Number.prototype.toString(radix)\<close> on an integer, for a radix up to 36: the digits
  \<open>0-9a-z\<close>, most significant first, after a minus sign for a negative number.
\<close>

definition digitChar :: "int \<Rightarrow> char" where
  "digitChar d = ''0123456789abcdefghijklmnopqrstuvwxyz'' ! nat d"

function digits :: "int \<Rightarrow> int \<Rightarrow> string" where
  "digits radix n =
     (if n < radix \<or> radix < 2 then [digitChar n]
      else digits radix (n div radix) @ [digitChar (n mod radix)])"
  by pat_completeness auto
termination
proof (relation "measure (\<lambda>(radix, n). nat n)")
  show "wf (measure (\<lambda>(radix, n). nat n))"
    by simp
next
  fix radix n :: int
  assume "\<not> (n < radix \<or> radix < 2)"
  then have "2 \<le> radix" and "radix \<le> n"
    by simp_all
  then have "n div radix < n"
    by (simp add: int_div_less_self)
  moreover have "0 < n"
    using \<open>2 \<le> radix\<close> \<open>radix \<le> n\<close> by simp
  ultimately show "((radix, n div radix), (radix, n)) \<in> measure (\<lambda>(radix, n). nat n)"
    by simp
qed

declare digits.simps [simp del]

definition numberToString :: "int \<Rightarrow> int \<Rightarrow> string" where
  "numberToString radix n =
     (if n < 0 then CHR ''-'' # digits radix (- n) else digits radix n)"

text \<open>\<open>n.toString(36)\<close>, and the decimal rendering of a number in a template literal.\<close>

definition toString36 :: "int \<Rightarrow> string" where
  "toString36 n = numberToString 36 n"

definition intToString :: "int \<Rightarrow> string" where
  "intToString n = numberToString 10 n"

section \<open>The regular expressions the extension uses\<close>

text \<open>
  The extension matches text with regular-expression literals. The fragment they need is
  modelled here with the backtracking semantics of the language: \<open>rmatch\<close> returns, in the
  order in which the engine tries them, all the ways in which a pattern matches a prefix
  of the input (the remaining input and the text of capture group 1), and the engine
  takes the first one. \<open>Cls p lo hi greedy\<close> is a character class repeated between \<open>lo\<close>
  and \<open>hi\<close> times, longest first when greedy and shortest first when lazy; \<open>Eol\<close> is \<open>$\<close>
  without the multiline flag. Under the flag \<open>i\<close> the ASCII letters match in either case.
\<close>

definition asciiLower :: "char \<Rightarrow> char" where
  "asciiLower c = (let n = charCode c in if 65 \<le> n \<and> n \<le> 90 then char_of (n + 32) else c)"

definition asciiUpper :: "char \<Rightarrow> char" where
  "asciiUpper c = (let n = charCode c in if 97 \<le> n \<and> n \<le> 122 then char_of (n - 32) else c)"

datatype regex =
    Lit string
  | Cls "char \<Rightarrow> bool" nat "nat option" bool
  | Cat regex regex
  | Alt regex regex
  | Opt regex
  | Grp regex
  | Eol

definition litMatches :: "bool \<Rightarrow> string \<Rightarrow> string \<Rightarrow> bool" where
  "litMatches i l s =
     (length l \<le> length s \<and>
      (if i then map asciiLower (take (length l) s) = map asciiLower l
       else take (length l) s = l))"

definition clsMatches :: "bool \<Rightarrow> (char \<Rightarrow> bool) \<Rightarrow> char \<Rightarrow> bool" where
  "clsMatches i p c = (if i then p c \<or> p (asciiLower c) \<or> p (asciiUpper c) else p c)"

fun rmatch :: "bool \<Rightarrow> regex \<Rightarrow> string \<Rightarrow> string option \<Rightarrow> (string \<times> string option) list" where
  "rmatch i (Lit l) s cap = (if litMatches i l s then [(drop (length l) s, cap)] else [])"
| "rmatch i (Cls p lo hi greedy) s cap =
     (let n = length (takeWhile (clsMatches i p) s);
          m = (case hi of None \<Rightarrow> n | Some h \<Rightarrow> min h n);
          ks = (if greedy then rev [lo..<Suc m] else [lo..<Suc m])
      in map (\<lambda>k. (drop k s, cap)) ks)"
| "rmatch i (Cat a b) s cap = concat (map (\<lambda>(s', cap'). rmatch i b s' cap') (rmatch i a s cap))"
| "rmatch i (Alt a b) s cap = rmatch i a s cap @ rmatch i b s cap"
| "rmatch i (Opt a) s cap = rmatch i a s cap @ [(s, cap)]"
| "rmatch i (Grp a) s cap =
     map (\<lambda>(s', cap'). (s', Some (take (length s - length s') s))) (rmatch i a s cap)"
| "rmatch i Eol s cap = (if s = [] then [(s, cap)] else [])"

text \<open>The match object: \<open>match[0]\<close>, \<open>match[1]\<close> and the input after the match.\<close>

record match_result =
  matched :: string
  group1 :: "string option"
  rest :: string

definition matchAt :: "bool \<Rightarrow> regex \<Rightarrow> string \<Rightarrow> match_result option" where
  "matchAt i r s =
     (case rmatch i r s None of
        [] \<Rightarrow> None
      | (s', cap) # _ \<Rightarrow>
          Some \<lparr>matched = take (length s - length s') s, group1 = cap, rest = s'\<rparr>)"

text \<open>\<open>text.match(re)\<close> for a pattern without the flag \<open>g\<close>: the leftmost match.\<close>

fun js_match :: "bool \<Rightarrow> regex \<Rightarrow> string \<Rightarrow> match_result option" where
  "js_match i r [] = matchAt i r []"
| "js_match i r (c # s) =
     (case matchAt i r (c # s) of Some m \<Rightarrow> Some m | None \<Rightarrow> js_match i r s)"

text \<open>
  \<open>text.matchAll(re)\<close> for a pattern with the flag \<open>g\<close> that cannot match the empty
  string: the successive matches, each search starting where the last match ended
  (\<open>skip\<close> counts the characters of the last match still to pass).
\<close>

fun matchAllFrom :: "bool \<Rightarrow> regex \<Rightarrow> nat \<Rightarrow> string \<Rightarrow> match_result list" where
  "matchAllFrom i r skip [] = []"
| "matchAllFrom i r skip (c # s) =
     (if 0 < skip then matchAllFrom i r (skip - 1) s
      else case matchAt i r (c # s) of
             None \<Rightarrow> matchAllFrom i r 0 s
           | Some m \<Rightarrow> m # matchAllFrom i r (length (matched m) - 1) s)"

definition matchAll :: "bool \<Rightarrow> regex \<Rightarrow> string \<Rightarrow> match_result list" where
  "matchAll i r s = matchAllFrom i r 0 s"

definition newline :: char where
  "newline = CHR 0x0A"

text \<open>The class \<open>.\<close>: every code unit but line feed and carriage return.\<close>

definition isDot :: "char \<Rightarrow> bool" where
  "isDot c = (charCode c \<noteq> 10 \<and> charCode c \<noteq> 13)"

definition isUpper :: "char \<Rightarrow> bool" where
  "isUpper c = (65 \<le> charCode c \<and> charCode c \<le> 90)"

definition isAlpha :: "char \<Rightarrow> bool" where
  "isAlpha c = (let n = charCode c in (65 \<le> n \<and> n \<le> 90) \<or> (97 \<le> n \<and> n \<le> 122))"

definition isDigit :: "char \<Rightarrow> bool" where
  "isDigit c = (48 \<le> charCode c \<and> charCode c \<le> 57)"

section \<open>Data model\<close>

text \<open>
  \<open>emailData\<close>, the record \<open>extractEmailData\<close> builds (its \<open>element\<close> reference, which
  \<open>sendToAnalysis\<close> strips before sending, is left out).
\<close>

record email_data =
  email_id :: string
  subject :: string
  sender :: string
  body :: string
  timestamp :: string
  url :: string

record flag =
  flag_type :: string
  message :: string

record extracted_info =
  companyName :: "string option"
  website :: "string option"
  contactPerson :: "string option"
  offer :: "string option"
  agenda :: "string option"

text \<open>
  The analysis result as it travels from the remote endpoint through the background
  service to the content script. Every property may be absent. \<open>isSponsor\<close> holds whatever
  \<open>determineSponsorStatus\<close> returned, which need not be a boolean.
\<close>

record analysis_result =
  error :: "string option"
  isSponsor :: jsval
  riskScore :: jsnum
  status :: "string option"
  flags :: "flag list option"
  extractedInfo :: "extracted_info option"
  summary :: "string option"
  originalEmail :: "email_data option"
  processedAt :: "string option"

text \<open>The empty object \<open>{}\<close>.\<close>

definition emptyResult :: analysis_result where
  "emptyResult =
     \<lparr>error = None, isSponsor = JUndefined, riskScore = NumUndefined, status = None, flags = None,
      extractedInfo = None, summary = None, originalEmail = None, processedAt = None\<rparr>"

text \<open>\<open>result.extractedInfo?.field\<close>.\<close>

definition infoField :: "analysis_result \<Rightarrow> (extracted_info \<Rightarrow> string option) \<Rightarrow> string option" where
  "infoField result field = (case extractedInfo result of None \<Rightarrow> None | Some info \<Rightarrow> field info)"

text \<open>
  The part of the page that the content script reads from a node: its attributes, its
  \<open>id\<close> (empty when it has none), its text, its index among the children of its parent
  (\<open>None\<close> when it has no parent) and the descendants that \<open>querySelector\<close> finds.
\<close>

record sub_element =
  sub_attributes :: "string \<Rightarrow> string option"
  sub_textContent :: string

record element =
  attributes :: "string \<Rightarrow> string option"
  element_id :: string
  textContent :: string
  innerText :: string
  siblingIndex :: "nat option"
  querySelector :: "string \<Rightarrow> sub_element option"

section \<open>content.js: identity, prefilter and extraction\<close>

text \<open>ToInt32: the value of a bitwise operator's operand, in two's complement on 32 bits.\<close>

definition toInt32 :: "int \<Rightarrow> int" where
  "toInt32 x = (x + 2 ^ 31) mod 2 ^ 32 - 2 ^ 31"

text \<open>
  \<open>simpleHash\<close>. The loop body is
  \<^verbatim>\<open>hash = ((hash << 5) - hash) + char; hash = hash & hash;\<close>
  where \<open><<\<close> and \<open>&\<close> yield 32-bit signed integers and \<open>-\<close>, \<open>+\<close> are exact; the result is
  \<^verbatim>\<open>Math.abs(hash).toString(36)\<close>.
\<close>

fun hashLoop :: "int \<Rightarrow> string \<Rightarrow> int" where
  "hashLoop hash [] = hash"
| "hashLoop hash (c # str) =
     hashLoop (toInt32 ((toInt32 (hash * 2 ^ 5) - hash) + charCode c)) str"

definition simpleHash :: "string \<Rightarrow> string" where
  "simpleHash str = toString36 \<bar>hashLoop 0 str\<bar>"

text \<open>An attribute that is present and not the empty string, as \<open>if (threadId)\<close> tests it.\<close>

definition truthyAttr :: "string option \<Rightarrow> string option" where
  "truthyAttr v = (case v of None \<Rightarrow> None | Some a \<Rightarrow> if a = [] then None else Some a)"

text \<open>
  \<^verbatim>\<open>Array.from(element.parentNode?.children || []).indexOf(element)\<close>: the index among the
  parent's children, \<open>-1\<close> for a node without parent.
\<close>

definition position :: "element \<Rightarrow> int" where
  "position element = (case siblingIndex element of None \<Rightarrow> - 1 | Some k \<Rightarrow> int k)"

definition getEmailId :: "element \<Rightarrow> string" where
  "getEmailId element =
     (case truthyAttr (attributes element ''data-thread-id'') of
        Some threadId \<Rightarrow> ''thread_'' @ threadId
      | None \<Rightarrow>
     (case truthyAttr (attributes element ''data-message-id'') of
        Some messageId \<Rightarrow> ''msg_'' @ messageId
      | None \<Rightarrow>
     (case truthyAttr (attributes element ''data-legacy-thread-id'') of
        Some legacyId \<Rightarrow> ''legacy_'' @ legacyId
      | None \<Rightarrow>
     (if element_id element \<noteq> [] then ''elem_'' @ element_id element
      else
        let content = textContent element;
            contentHash = simpleHash (slice0 content 200)
        in ''content_'' @ contentHash @ ''_'' @ intToString (position element)))))"

text \<open>
  Two definitions that the code does not contain, to state what \<open>simpleHash\<close> computes:
  the multiply-by-31 accumulation on unbounded integers, and the fallback identity as the
  specification words it (the base-36 encoding of the hash wrapped to an unsigned 32-bit
  number, followed by the position).
\<close>

fun rollingHash :: "int \<Rightarrow> string \<Rightarrow> int" where
  "rollingHash h [] = h"
| "rollingHash h (c # str) = rollingHash (31 * h + charCode c) str"

definition spec_fallbackIdentity :: "element \<Rightarrow> string" where
  "spec_fallbackIdentity element =
     toString36 (rollingHash 0 (slice0 (textContent element) 200) mod 2 ^ 32)
       @ intToString (position element)"

text \<open>\<open>hasSponsortKeywords\<close>, the keyword prefilter, with its list of thirty keywords.\<close>

definition sponsorKeywords :: "string list" where
  "sponsorKeywords =
     [''sponsor'', ''partnership'', ''collaboration'', ''brand deal'',
      ''influencer'', ''campaign'', ''promotion'', ''advertising'',
      ''content creator'', ''social media'', ''youtube'', ''instagram'',
      ''tiktok'', ''brand ambassador'', ''affiliate'', ''marketing'',
      ''product placement'', ''endorsement'', ''paid post'', ''review'',
      ''feature'', ''shoutout'', ''mention'', ''brand'', ''company'',
      ''business'', ''opportunity'', ''proposal'', ''deal'', ''offer'']"

definition hasSponsortKeywords :: "email_data \<Rightarrow> bool" where
  "hasSponsortKeywords emailData =
     (let emailText = toLowerCase (subject emailData @ '' '' @ body emailData)
      in list_ex (\<lambda>keyword. includes_str emailText keyword) sponsorKeywords)"

text \<open>
  What an invocation of the content script gets from its host: the clock and the address
  of the page, whether \<open>chrome.storage.local.set\<close> fails (with which message), and how the
  message to the background service is answered.
\<close>

datatype analysis_reply =
    SendThrows string
  | LastError string
  | Response "analysis_result option"

record host =
  now :: string
  href :: string
  storageError :: "string option"
  reply :: analysis_reply

text \<open>The first descendant found along a list of selectors joined by \<open>||\<close>.\<close>

fun firstFound :: "element \<Rightarrow> string list \<Rightarrow> sub_element option" where
  "firstFound element [] = None"
| "firstFound element (selector # selectors) =
     (case querySelector element selector of
        Some found \<Rightarrow> Some found
      | None \<Rightarrow> firstFound element selectors)"

text \<open>\<^verbatim>\<open>/Subject:\s*(.+?)(?:\n|From:|$)/i\<close>\<close>

definition subjectPattern :: regex where
  "subjectPattern =
     Cat (Lit ''Subject:'') (Cat (Cls isSpace 0 None True)
       (Cat (Grp (Cls isDot 1 None False))
         (Alt (Lit [newline]) (Alt (Lit ''From:'') Eol))))"

text \<open>\<^verbatim>\<open>/^(.+?)\n/\<close>, matched at the start of the text only.\<close>

definition firstLinePattern :: regex where
  "firstLinePattern = Cat (Grp (Cls isDot 1 None False)) (Lit [newline])"

text \<open>\<^verbatim>\<open>/([a-zA-Z0-9._%+-]+@[a-zA-Z0-9.-]+\.[a-zA-Z]{2,})/\<close>\<close>

definition emailPattern :: regex where
  "emailPattern =
     Grp (Cat (Cls (\<lambda>c. isAlpha c \<or> isDigit c \<or> c \<in> set ''._%+-'') 1 None True)
       (Cat (Lit ''@'')
         (Cat (Cls (\<lambda>c. isAlpha c \<or> isDigit c \<or> c \<in> set ''.-'') 1 None True)
           (Cat (Lit ''.'') (Cls isAlpha 2 None True)))))"

text \<open>\<open>a || b\<close> on two match results: a match object is always truthy.\<close>

definition orElse :: "'a option \<Rightarrow> 'a option \<Rightarrow> 'a option" where
  "orElse a b = (case a of Some x \<Rightarrow> Some x | None \<Rightarrow> b)"

text \<open>\<open>match[1]\<close> of a pattern whose group 1 takes part in every match.\<close>

definition capture1 :: "match_result \<Rightarrow> string" where
  "capture1 m = (case group1 m of Some g \<Rightarrow> g | None \<Rightarrow> [])"

text \<open>\<open>text.split('\n')[0]\<close>\<close>

definition firstLine :: "string \<Rightarrow> string" where
  "firstLine text = takeWhile (\<lambda>c. c \<noteq> newline) text"

definition extractEmailData :: "host \<Rightarrow> element \<Rightarrow> email_data option" where
  "extractEmailData h element =
     (let text = (if textContent element \<noteq> [] then textContent element else innerText element)
      in if text = [] \<or> length text < 20 then None
      else
        let subjectElement =
              firstFound element
                [''[data-subject]'', ''.bog'', ''.hP'', ''.y6'', ''span[data-thread-id]''];
            senderElement =
              firstFound element
                [''[email]'', ''.go .g2'', ''.yW span[email]'', ''.yW span[name]'', ''.zF'', ''.yP''];
            subject0 =
              (case subjectElement of
                 None \<Rightarrow> ''No Subject''
               | Some el \<Rightarrow> if sub_textContent el \<noteq> [] then sub_textContent el else ''No Subject'');
            sender0 =
              (case senderElement of
                 None \<Rightarrow> ''Unknown Sender''
               | Some el \<Rightarrow>
                   (case truthyAttr (sub_attributes el ''email'') of
                      Some a \<Rightarrow> a
                    | None \<Rightarrow>
                   (case truthyAttr (sub_attributes el ''name'') of
                      Some a \<Rightarrow> a
                    | None \<Rightarrow>
                   (if sub_textContent el \<noteq> [] then sub_textContent el else ''Unknown Sender''))));
            subject1 =
              (if subjectElement = None \<or> subject0 = ''No Subject''
               then (case orElse (js_match True subjectPattern text)
                                 (matchAt False firstLinePattern text) of
                       Some subjectMatch \<Rightarrow> trim (capture1 subjectMatch)
                     | None \<Rightarrow> subject0)
               else subject0);
            sender1 =
              (if senderElement = None \<or> sender0 = ''Unknown Sender''
               then (case js_match False emailPattern text of
                       Some emailMatch \<Rightarrow> capture1 emailMatch
                     | None \<Rightarrow> sender0)
               else sender0);
            subject2 =
              (if subject1 = ''No Subject'' then slice0 (firstLine text) 50 @ ''...'' else subject1)
        in Some \<lparr>email_id = getEmailId element,
                 subject = slice0 subject2 200,
                 sender = slice0 sender1 100,
                 body = slice0 text 5000,
                 timestamp = now h,
                 url = href h\<rparr>)"

text \<open>
  \<open>sendToAnalysis\<close> always resolves: with \<open>{error: message}\<close> when sending throws or
  \<open>chrome.runtime.lastError\<close> is set, else with \<open>response || {}\<close>.
\<close>

definition sendToAnalysis :: "host \<Rightarrow> email_data \<Rightarrow> analysis_result" where
  "sendToAnalysis h emailData =
     (case reply h of
        SendThrows msg \<Rightarrow> emptyResult\<lparr>error := Some msg\<rparr>
      | LastError msg \<Rightarrow> emptyResult\<lparr>error := Some msg\<rparr>
      | Response None \<Rightarrow> emptyResult
      | Response (Some response) \<Rightarrow> response)"

text \<open>
  \<open>isSponsorEmail\<close>, the reconciler:
  \<^verbatim>\<open>result.isSponsor || result.extractedInfo?.companyName || result.extractedInfo?.offer ||
  (result.riskScore && result.riskScore < 50) || result.flags?.some(flag => flag.type === 'green')\<close>
\<close>

definition isSponsorEmail :: "analysis_result \<Rightarrow> jsval" where
  "isSponsorEmail result =
     jsOr (jsOr (jsOr (jsOr
       (isSponsor result)
       (strVal (infoField result companyName)))
       (strVal (infoField result offer)))
       (jsAnd (numVal (riskScore result)) (JBool (numLess (riskScore result) 50))))
       (case flags result of
          None \<Rightarrow> JUndefined
        | Some fs \<Rightarrow> JBool (list_ex (\<lambda>flag. flag_type flag = ''green'') fs))"

text \<open>The confidence that \<open>markAsSponsorEmail\<close> writes into the label.\<close>

definition confidence :: "analysis_result \<Rightarrow> string" where
  "confidence result =
     (if numLess (riskScore result) 30 then ''HIGH''
      else if numLess (riskScore result) 50 then ''MEDIUM'' else ''LOW'')"

section \<open>content.js: the pipeline, \<open>processEmail\<close>\<close>

text \<open>
  The agent's state: \<open>processedEmails\<close> (a JavaScript \<open>Set\<close>, kept in insertion order),
  \<open>sponsorEmails\<close>, and the array stored under the session's key in
  \<open>chrome.storage.local\<close>. \<open>trace\<close> records, in the order in which they happen, the
  effects of the pipeline that the properties below speak about.
\<close>

datatype event =
    LedgerCheck string
  | LedgerInsert string
  | LedgerCleared
  | Persisted "string list"
  | PersistFailed string
  | AnalysisRequest email_data
  | LabelInserted string string
  | DocsRequest analysis_result

record agent =
  processedEmails :: "string list"
  sponsorEmails :: "analysis_result list"
  storage :: "string list"
  trace :: "event list"

text \<open>The state of a new \<open>SponsorGuardAgent\<close>: a fresh session.\<close>

definition newAgent :: agent where
  "newAgent = \<lparr>processedEmails = [], sponsorEmails = [], storage = [], trace = []\<rparr>"

definition logEvent :: "event \<Rightarrow> agent \<Rightarrow> agent" where
  "logEvent ev a = a\<lparr>trace := trace a @ [ev]\<rparr>"

text \<open>\<open>this.processedEmails.add(emailId)\<close>\<close>

definition setAdd :: "string \<Rightarrow> string list \<Rightarrow> string list" where
  "setAdd x xs = (if x \<in> set xs then xs else xs @ [x])"

text \<open>
  \<open>saveProcessedEmails\<close> writes the set to storage; a failure of the write is caught and
  logged there, so the function returns normally in either case.
\<close>

definition saveProcessedEmails :: "host \<Rightarrow> agent \<Rightarrow> agent" where
  "saveProcessedEmails h a =
     (case storageError h of
        None \<Rightarrow> logEvent (Persisted (processedEmails a)) (a\<lparr>storage := processedEmails a\<rparr>)
      | Some msg \<Rightarrow> logEvent (PersistFailed msg) a)"

text \<open>
  \<open>markAsSponsorEmail\<close> inserts the label into the node unless the node has one already.
\<close>

definition markAsSponsorEmail :: "element \<Rightarrow> analysis_result \<Rightarrow> agent \<Rightarrow> agent" where
  "markAsSponsorEmail element result a =
     (case querySelector element ''.sponsor-guard-label'' of
        Some label \<Rightarrow> a
      | None \<Rightarrow> logEvent (LabelInserted (getEmailId element) (confidence result)) a)"

text \<open>The result that \<open>processEmail\<close> builds itself when the reply carries an error.\<close>

definition contentFallbackResult :: "email_data \<Rightarrow> analysis_result" where
  "contentFallbackResult emailData =
     emptyResult
       \<lparr>isSponsor := JBool True,
        riskScore := Num 30,
        status := Some ''sponsor'',
        extractedInfo :=
          Some \<lparr>companyName = Some ''Unknown Company'', website = None, contactPerson = None,
                offer = Some ''Sponsor opportunity detected'', agenda = None\<rparr>,
        originalEmail := Some emailData\<rparr>"

text \<open>
  \<open>processEmail\<close>. Its last part, from the call of \<open>sendToAnalysis\<close> on, is \<open>afterRequest\<close>.
  Nothing in the body throws on the data of the model, so the \<open>catch\<close> block of the
  function is never entered.
\<close>

definition afterRequest :: "host \<Rightarrow> element \<Rightarrow> email_data \<Rightarrow> agent \<Rightarrow> agent" where
  "afterRequest h element emailData a4 =
     (let result = sendToAnalysis h emailData
      in if truthy (strVal (error result)) then
           let fallbackResult = contentFallbackResult emailData;
               a5 = a4\<lparr>sponsorEmails := sponsorEmails a4 @ [fallbackResult]\<rparr>
           in markAsSponsorEmail element fallbackResult a5
         else if truthy (isSponsorEmail result) then
           let a5 = a4\<lparr>sponsorEmails := sponsorEmails a4 @ [result]\<rparr>;
               a6 = markAsSponsorEmail element result a5
           in logEvent (DocsRequest result) a6
         else a4)"

definition processEmail :: "host \<Rightarrow> agent \<Rightarrow> element \<Rightarrow> agent" where
  "processEmail h a element =
     (let emailId = getEmailId element;
          a1 = logEvent (LedgerCheck emailId) a
      in if emailId \<in> set (processedEmails a1) then a1
      else
        let a2 = logEvent (LedgerInsert emailId)
                   (a1\<lparr>processedEmails := setAdd emailId (processedEmails a1)\<rparr>);
            a3 = saveProcessedEmails h a2
        in case extractEmailData h element of
             None \<Rightarrow> a3
           | Some emailData \<Rightarrow>
               if \<not> hasSponsortKeywords emailData then a3
               else afterRequest h element emailData (logEvent (AnalysisRequest emailData) a3))"

text \<open>
  A sequence of invocations, one after the other as \<open>processExistingEmails\<close> and
  \<open>processNewEmails\<close> await them, each with what its host gives it, and with no clearing
  of the processed set in between.
\<close>

fun processAll :: "agent \<Rightarrow> (host \<times> element) list \<Rightarrow> agent" where
  "processAll a [] = a"
| "processAll a ((h, element) # invocations) = processAll (processEmail h a element) invocations"

text \<open>
  \<open>getEmailElements\<close> keeps, of the nodes that its selectors find, those whose text is
  longer than 50 characters and that bear no label yet; \<open>processExistingEmails\<close> runs
  \<open>processEmail\<close> on each of them in turn. The argument \<open>found\<close> is what the selectors find
  on the page, each node with what the host gives its invocation.
\<close>

definition meaningful :: "element \<Rightarrow> bool" where
  "meaningful el =
     (let text = (if textContent el \<noteq> [] then textContent el else innerText el)
      in text \<noteq> [] \<and> length text > 50 \<and> querySelector el ''.sponsor-guard-label'' = None)"

definition processExistingEmails :: "agent \<Rightarrow> (host \<times> element) list \<Rightarrow> agent" where
  "processExistingEmails a found =
     processAll a (filter (\<lambda>(h, element). meaningful element) found)"

text \<open>
  The processed set is cleared inside a session in two places, each followed by a scan of
  the page: the handler of the message \<open>resetProcessed\<close> (sent when the popup's refresh
  button is pressed), which also stores the empty set, and \<open>rescanEmails\<close>.
\<close>

definition clearProcessed :: "agent \<Rightarrow> agent" where
  "clearProcessed a = logEvent LedgerCleared (a\<lparr>processedEmails := []\<rparr>)"

definition resetProcessed :: "host \<Rightarrow> agent \<Rightarrow> (host \<times> element) list \<Rightarrow> agent" where
  "resetProcessed h a found =
     processExistingEmails (saveProcessedEmails h (clearProcessed a)) found"

definition rescanEmails :: "agent \<Rightarrow> (host \<times> element) list \<Rightarrow> agent" where
  "rescanEmails a found = processExistingEmails (clearProcessed a) found"

text \<open>
  A session: what happens to an agent between its construction and the end of the page,
  one step after the other.
\<close>

datatype session_step =
    Invoke host element
  | ResetProcessed host "(host \<times> element) list"
  | RescanEmails "(host \<times> element) list"

fun runSession :: "agent \<Rightarrow> session_step list \<Rightarrow> agent" where
  "runSession a [] = a"
| "runSession a (Invoke h element # steps) = runSession (processEmail h a element) steps"
| "runSession a (ResetProcessed h found # steps) = runSession (resetProcessed h a found) steps"
| "runSession a (RescanEmails found # steps) = runSession (rescanEmails a found) steps"

text \<open>The events that a run adds to the trace of the state \<open>a\<close> it starts from.\<close>

definition addedEvents :: "agent \<Rightarrow> agent \<Rightarrow> event list" where
  "addedEvents a a' = drop (length (trace a)) (trace a')"

text \<open>
  The analysis requests in a trace, and how many of them carry a given identity.
\<close>

fun analysisRequests :: "event list \<Rightarrow> email_data list" where
  "analysisRequests [] = []"
| "analysisRequests (AnalysisRequest emailData # evs) = emailData # analysisRequests evs"
| "analysisRequests (ev # evs) = analysisRequests evs"

definition analysisCalls :: "string \<Rightarrow> event list \<Rightarrow> nat" where
  "analysisCalls ident evs =
     length (filter (\<lambda>emailData. email_id emailData = ident) (analysisRequests evs))"

text \<open>
  In a trace, the ledger comes first: before every analysis request, the membership check
  and then the insertion for the identity of the request have happened.
\<close>

definition ledgerBefore :: "event list \<Rightarrow> string \<Rightarrow> bool" where
  "ledgerBefore evs ident =
     (\<exists>evs1 evs2 evs3. evs = evs1 @ LedgerCheck ident # evs2 @ LedgerInsert ident # evs3)"

definition ledgerFirst :: "event list \<Rightarrow> bool" where
  "ledgerFirst evs =
     (\<forall>before emailData after.
        evs = before @ AnalysisRequest emailData # after
          \<longrightarrow> ledgerBefore before (email_id emailData))"

text \<open>
  The invariant of the ledger: an identity that is not in the processed set has no
  analysis request, one that is in it has at most one.
\<close>

definition ledgerInv :: "agent \<Rightarrow> bool" where
  "ledgerInv a =
     (\<forall>ident. analysisCalls ident (trace a)
               \<le> (if ident \<in> set (processedEmails a) then 1 else 0))"

section \<open>background.js: the analysis client\<close>

record activity =
  activity_type :: string
  activity_message :: string
  activity_timestamp :: string

text \<open>
  The part of the background service's state that \<open>analyzeEmailWithAI\<close> changes. The
  notifications that it also sends to the popup are fire-and-forget messages whose
  failures are swallowed on the spot; they change neither this state nor the result.
\<close>

record service =
  recentActivities :: "activity list"

definition maxActivities :: nat where
  "maxActivities = 20"

definition addActivity :: "activity \<Rightarrow> service \<Rightarrow> service" where
  "addActivity act sv =
     (let acts = act # recentActivities sv
      in sv\<lparr>recentActivities := (if length acts > maxActivities then butlast acts else acts)\<rparr>)"

text \<open>
  Exceptions, and what \<open>fetch\<close> and \<open>response.json()\<close> can deliver: \<open>fetch\<close> rejects or
  resolves with a status and a body; the body is not JSON, or is \<open>null\<close>, or is an object
  (a JSON number, string, boolean or array has none of the properties read here and
  behaves as the empty object).
\<close>

datatype js_error = Error string | TypeError string | SyntaxError string

fun error_message :: "js_error \<Rightarrow> string" where
  "error_message (Error msg) = msg"
| "error_message (TypeError msg) = msg"
| "error_message (SyntaxError msg) = msg"

datatype response_body =
    InvalidJson string
  | JsonNull
  | JsonObject analysis_result

datatype fetch_outcome =
    NetworkFailure string
  | HttpResponse nat response_body

text \<open>\<open>response.ok\<close>: the status is in the range 200..299.\<close>

definition response_ok :: "nat \<Rightarrow> bool" where
  "response_ok st = (200 \<le> st \<and> st \<le> 299)"

text \<open>\<open>determineSponsorStatus\<close>, with its list of nineteen keywords.\<close>

definition sponsorKeywords_determine :: "string list" where
  "sponsorKeywords_determine =
     [''sponsor'', ''partnership'', ''collaboration'', ''brand deal'',
      ''influencer'', ''campaign'', ''promotion'', ''advertising'',
      ''content creator'', ''social media'', ''youtube'', ''instagram'',
      ''tiktok'', ''brand ambassador'', ''affiliate'', ''marketing'',
      ''product placement'', ''endorsement'', ''paid post'']"

definition hasKeywords :: "email_data \<Rightarrow> bool" where
  "hasKeywords emailData =
     (let emailText = toLowerCase (subject emailData @ '' '' @ body emailData)
      in list_ex (\<lambda>keyword. includes_str emailText keyword) sponsorKeywords_determine)"

definition lowRisk :: "analysis_result \<Rightarrow> jsval" where
  "lowRisk analysisResult =
     jsAnd (numVal (riskScore analysisResult)) (JBool (numLess (riskScore analysisResult) 40))"

definition hasBusinessInfo :: "analysis_result \<Rightarrow> jsval" where
  "hasBusinessInfo analysisResult =
     jsOr (strVal (infoField analysisResult companyName)) (strVal (infoField analysisResult website))"

definition professionalSender :: "email_data \<Rightarrow> jsval" where
  "professionalSender emailData =
     jsAnd (JStr (sender emailData))
       (JBool (\<not> includes_str (sender emailData) ''gmail.com''
             \<and> \<not> includes_str (sender emailData) ''yahoo.com''
             \<and> \<not> includes_str (sender emailData) ''hotmail.com''))"

definition determineSponsorStatus :: "analysis_result \<Rightarrow> email_data \<Rightarrow> jsval" where
  "determineSponsorStatus analysisResult emailData =
     jsAnd (JBool (hasKeywords emailData))
       (jsOr (jsOr (lowRisk analysisResult) (hasBusinessInfo analysisResult))
             (professionalSender emailData))"

text \<open>\<open>fallbackSponsorDetection\<close>, with its list of eight keywords.\<close>

definition sponsorKeywords_fallback :: "string list" where
  "sponsorKeywords_fallback =
     [''sponsor'', ''partnership'', ''collaboration'', ''brand deal'',
      ''influencer'', ''campaign'', ''promotion'', ''advertising'']"

definition fallbackSponsorDetection :: "email_data \<Rightarrow> bool" where
  "fallbackSponsorDetection emailData =
     (let emailText = toLowerCase (subject emailData @ '' '' @ body emailData)
      in list_ex (\<lambda>keyword. includes_str emailText keyword) sponsorKeywords_fallback)"

text \<open>
  \<open>extractBasicInfo\<close>. The company pattern is
  \<^verbatim>\<open>/(?:from|at|with|representing)\s+([A-Z][a-zA-Z\s&]+(?:Inc|LLC|Corp|Company|Ltd))/i\<close>
  and is applied to the lowercased body; the website pattern is
  \<^verbatim>\<open>/https?:\/\/[^\s<>"{}|\\^`[\]]+/\<close>.
\<close>

definition companyPattern :: regex where
  "companyPattern =
     Cat (Alt (Lit ''from'') (Alt (Lit ''at'') (Alt (Lit ''with'') (Lit ''representing''))))
       (Cat (Cls isSpace 1 None True)
         (Grp (Cat (Cls isUpper 1 (Some 1) True)
           (Cat (Cls (\<lambda>c. isAlpha c \<or> isSpace c \<or> c = CHR ''&'') 1 None True)
             (Alt (Lit ''Inc'') (Alt (Lit ''LLC'') (Alt (Lit ''Corp'')
               (Alt (Lit ''Company'') (Lit ''Ltd''))))))))) "

definition isUrlChar :: "char \<Rightarrow> bool" where
  "isUrlChar c =
     (\<not> isSpace c \<and> charCode c \<notin> set [60, 62, 34, 123, 125, 124, 92, 94, 96, 91, 93])"

definition websitePattern :: regex where
  "websitePattern =
     Cat (Lit ''http'') (Cat (Opt (Lit ''s'')) (Cat (Lit ''://'') (Cls isUrlChar 1 None True)))"

definition extractBasicInfo :: "email_data \<Rightarrow> extracted_info" where
  "extractBasicInfo emailData =
     (let text = toLowerCase (body emailData);
          companyMatch = js_match True companyPattern text;
          websiteMatch = js_match False websitePattern (body emailData)
      in \<lparr>companyName =
            Some (case companyMatch of Some m \<Rightarrow> trim (capture1 m) | None \<Rightarrow> ''Not specified''),
          website =
            Some (case websiteMatch of Some m \<Rightarrow> matched m | None \<Rightarrow> ''Not specified''),
          contactPerson = None,
          offer = Some ''Potential business opportunity detected'',
          agenda = None\<rparr>)"

text \<open>
  \<open>extractWebsiteFromEmail\<close> loops over two patterns and calls \<open>text.matchAll(pattern)\<close>
  on each. The first,
  \<^verbatim>\<open>/https?:\/\/(?:www\.)?([a-zA-Z0-9.-]+\.[a-zA-Z]{2,})/g\<close>,
  has the flag \<open>g\<close>; the function returns at its first match whose domain contains neither
  \<open>gmail\<close> nor \<open>google\<close>. The second pattern has the flag \<open>i\<close> only, and \<open>matchAll\<close> throws
  a TypeError for a pattern without \<open>g\<close>: so when the first pattern yields no domain the
  function throws, and the code after the loop is never reached.
\<close>

definition urlPattern :: regex where
  "urlPattern =
     Cat (Lit ''http'') (Cat (Opt (Lit ''s'')) (Cat (Lit ''://'') (Cat (Opt (Lit ''www.''))
       (Grp (Cat (Cls (\<lambda>c. isAlpha c \<or> isDigit c \<or> c \<in> set ''.-'') 1 None True)
         (Cat (Lit ''.'') (Cls isAlpha 2 None True)))))))"

definition extractWebsiteFromEmail :: "email_data \<Rightarrow> js_error + string" where
  "extractWebsiteFromEmail emailData =
     (let text = body emailData;
          domains = map capture1 (matchAll False urlPattern text)
      in case find (\<lambda>domain. domain \<noteq> [] \<and> \<not> includes_str domain ''gmail''
                                \<and> \<not> includes_str domain ''google'') domains of
           Some domain \<Rightarrow> Inr (if startsWith domain ''www.'' then domain else ''www.'' @ domain)
         | None \<Rightarrow>
             Inl (TypeError ''String.prototype.matchAll called with a non-global RegExp argument''))"

text \<open>
  The \<open>try\<close> block of \<open>analyzeEmailWithAI\<close>, with the outcome of \<open>fetch\<close> and the clock as
  arguments. It raises when \<open>fetch\<close> rejects, when the status is not a success, when the
  body is not JSON, when the body is \<open>null\<close> (\<open>determineSponsorStatus\<close> reads a property of
  it), and when a sponsor's details are collected and \<open>extractWebsiteFromEmail\<close> throws
  (the other extractors called there cannot throw on strings). Activities logged before
  the exception stay logged.
\<close>

definition analysisAttempt ::
    "fetch_outcome \<Rightarrow> string \<Rightarrow> service \<Rightarrow> email_data \<Rightarrow> (js_error + analysis_result) \<times> service" where
  "analysisAttempt fetched clock sv emailData =
     (let sv1 = addActivity \<lparr>activity_type = ''scanned'',
                             activity_message = ''Analyzing: '' @ subject emailData,
                             activity_timestamp = clock\<rparr> sv
      in case fetched of
           NetworkFailure msg \<Rightarrow> (Inl (TypeError msg), sv1)
         | HttpResponse st content \<Rightarrow>
             if \<not> response_ok st then (Inl (Error (''Analysis failed: '' @ intToString (int st))), sv1)
             else
               (case content of
                  InvalidJson msg \<Rightarrow> (Inl (SyntaxError msg), sv1)
                | JsonNull \<Rightarrow> (Inl (TypeError ''Cannot read properties of null''), sv1)
                | JsonObject result \<Rightarrow>
                    let isSponsor_value = determineSponsorStatus result emailData;
                        finalResult = result\<lparr>isSponsor := isSponsor_value,
                                             originalEmail := Some emailData,
                                             processedAt := Some clock\<rparr>
                    in if truthy isSponsor_value then
                         let sv2 = addActivity
                                     \<lparr>activity_type = ''sponsor'',
                                      activity_message = ''Sponsor detected: '' @ subject emailData,
                                      activity_timestamp = clock\<rparr> sv1
                         in if truthy (strVal (infoField result website)) then (Inr finalResult, sv2)
                            else (case extractWebsiteFromEmail emailData of
                                    Inl err \<Rightarrow> (Inl err, sv2)
                                  | Inr site \<Rightarrow> (Inr finalResult, sv2))
                       else (Inr finalResult, sv1)))"

text \<open>The \<open>catch\<close> block: the fallback analysis.\<close>

definition fallbackAnalysis :: "js_error \<Rightarrow> email_data \<Rightarrow> analysis_result" where
  "fallbackAnalysis err emailData =
     \<lparr>error = Some (error_message err),
      isSponsor = JBool (fallbackSponsorDetection emailData),
      riskScore = Num 50,
      status = Some ''warning'',
      flags = Some [\<lparr>flag_type = ''yellow'',
                     message = ''API unavailable - using fallback detection''\<rparr>],
      extractedInfo = Some (extractBasicInfo emailData),
      summary = None,
      originalEmail = Some emailData,
      processedAt = None\<rparr>"

text \<open>
  \<open>analyzeEmailWithAI\<close>: \<open>Inr\<close> is a returned result, \<open>Inl\<close> an exception that reaches the
  caller.
\<close>

definition analyzeEmailWithAI ::
    "fetch_outcome \<Rightarrow> string \<Rightarrow> service \<Rightarrow> email_data \<Rightarrow> (js_error + analysis_result) \<times> service" where
  "analyzeEmailWithAI fetched clock sv emailData =
     (case analysisAttempt fetched clock sv emailData of
        (Inr finalResult, sv') \<Rightarrow> (Inr finalResult, sv')
      | (Inl err, sv') \<Rightarrow> (Inr (fallbackAnalysis err emailData), sv'))"

text \<open>The remote call fails: \<open>fetch\<close> rejects, or the status is not a success.\<close>

definition remoteCallFails :: "fetch_outcome \<Rightarrow> bool" where
  "remoteCallFails fetched =
     (case fetched of NetworkFailure msg \<Rightarrow> True | HttpResponse st content \<Rightarrow> \<not> response_ok st)"

section \<open>popup.js: the risk thresholds\<close>

text \<open>
  \<open>addChecklistSummary\<close> computes the class of the summary line from the risk score
  \<open>data.riskScore\<close> (the argument \<open>score\<close> below):
  \<^verbatim>\<open>data.riskScore > 70 ? 'danger' : data.riskScore > 40 ? 'warning' : 'safe'\<close>,
  and \<open>getRiskLevel\<close> uses the same two thresholds.
\<close>

definition scoreClass :: "int \<Rightarrow> string" where
  "scoreClass score =
     (if score > 70 then ''danger'' else if score > 40 then ''warning'' else ''safe'')"

definition recommendation :: "int \<Rightarrow> string" where
  "recommendation score =
     (if score > 70 then ''NOT RECOMMENDED''
      else if score > 40 then ''PROCEED WITH CAUTION''
      else ''SAFE TO PROCEED'')"

definition getRiskLevel :: "int \<Rightarrow> string" where
  "getRiskLevel score =
     (if score > 70 then ''HIGH RISK'' else if score > 40 then ''MEDIUM RISK'' else ''LOW RISK'')"

section \<open>Sample inputs\<close>

text \<open>
  Concrete inputs on which the properties below are exercised: the message of the
  extension's own test function \<open>sponsorGuardTest\<close>, and a message that passes the
  prefilter on the keyword \<open>offer\<close> only.
\<close>

definition sampleEmail :: email_data where
  "sampleEmail =
     \<lparr>email_id = ''msg_18c2'',
      subject = ''Brand Partnership Opportunity'',
      sender = ''marketing@testcompany.com'',
      body = ''Hi! We would love to partner with you for a sponsored post about our new product.'',
      timestamp = ''2024-05-01T10:00:00.000Z'',
      url = ''https://mail.google.com/mail/u/0/''\<rparr>"

definition offerEmail :: email_data where
  "offerEmail =
     \<lparr>email_id = ''msg_18c3'',
      subject = ''Special offer'',
      sender = ''news@shop.example'',
      body = ''A special offer for you, today only.'',
      timestamp = ''2024-05-01T10:00:00.000Z'',
      url = ''https://mail.google.com/mail/u/0/''\<rparr>"

text \<open>A node without identifier attributes.\<close>

definition proposalNode :: element where
  "proposalNode =
     \<lparr>attributes = (\<lambda>name. None),
      element_id = [],
      textContent = ''Partnership proposal for your channel'',
      innerText = ''Partnership proposal for your channel'',
      siblingIndex = Some 0,
      querySelector = (\<lambda>selector. None)\<rparr>"


definition quietHost :: host where
  "quietHost =
     \<lparr>now = ''2024-05-01T10:00:00.000Z'',
      href = ''https://mail.google.com/mail/u/0/'',
      storageError = None,
      reply = Response None\<rparr>"


text \<open>
  A row of the inbox list with a thread identifier, whose subject and sender are found by
  the selectors and are longer than the record allows; and the record built from it.
\<close>

definition listRowNode :: element where
  "listRowNode =
     \<lparr>attributes = (\<lambda>name. if name = ''data-thread-id'' then Some ''18c5'' else None),
      element_id = [],
      textContent = ''A long subject line and a long sender address.'',
      innerText = ''A long subject line and a long sender address.'',
      siblingIndex = Some 1,
      querySelector =
        (\<lambda>selector.
           if selector = ''.bog''
           then Some \<lparr>sub_attributes = (\<lambda>name. None),
                       sub_textContent = replicate 250 (CHR ''s'')\<rparr>
           else if selector = ''[email]''
           then Some \<lparr>sub_attributes =
                         (\<lambda>name. if name = ''email''
                                  then Some (replicate 120 (CHR ''m'') @ ''@example.com'')
                                  else None),
                       sub_textContent = []\<rparr>
           else None)\<rparr>"

definition listRowRecord :: email_data where
  "listRowRecord =
     \<lparr>email_id = ''thread_18c5'',
      subject = replicate 200 (CHR ''s''),
      sender = replicate 100 (CHR ''m''),
      body = ''A long subject line and a long sender address.'',
      timestamp = ''2024-05-01T10:00:00.000Z'',
      url = ''https://mail.google.com/mail/u/0/''\<rparr>"

text \<open>
  A conversation with a thread identifier and no sender element or address in its text,
  the record built from it, and an answer of the remote endpoint with a high risk score
  and no extracted information.
\<close>

definition proposalRow :: element where
  "proposalRow =
     \<lparr>attributes = (\<lambda>name. if name = ''data-thread-id'' then Some ''18c6'' else None),
      element_id = [],
      textContent =
        ''Partnership proposal for your channel. Details at https://brandco.example/offer'',
      innerText =
        ''Partnership proposal for your channel. Details at https://brandco.example/offer'',
      siblingIndex = Some 2,
      querySelector = (\<lambda>selector. None)\<rparr>"

definition proposalRecord :: email_data where
  "proposalRecord =
     \<lparr>email_id = ''thread_18c6'',
      subject = ''Partnership proposal for your channel. Details at ...'',
      sender = ''Unknown Sender'',
      body = ''Partnership proposal for your channel. Details at https://brandco.example/offer'',
      timestamp = ''2024-05-01T10:00:00.000Z'',
      url = ''https://mail.google.com/mail/u/0/''\<rparr>"

definition riskyRemoteResult :: analysis_result where
  "riskyRemoteResult =
     emptyResult\<lparr>riskScore := Num 90, status := Some ''danger'', flags := Some []\<rparr>"

text \<open>The agent after that conversation has been processed and the set cleared.\<close>

definition afterRescan :: agent where
  "afterRescan = runSession newAgent [Invoke quietHost proposalRow, RescanEmails []]"

definition idleService :: service where
  "idleService = \<lparr>recentActivities = []\<rparr>"

section \<open>Properties\<close>

subsection \<open>Truthiness\<close>

lemma truthy_jsAnd: "truthy (jsAnd a b) = (truthy a \<and> truthy b)"
  by (simp add: jsAnd_def)

lemma truthy_jsOr: "truthy (jsOr a b) = (truthy a \<or> truthy b)"
  by (simp add: jsOr_def)

lemma truthy_strVal: "truthy (strVal v) = (\<exists>s. v = Some s \<and> s \<noteq> [])"
  by (cases v) (simp_all add: strVal_def)

lemma truthy_numVal: "truthy (numVal v) = (\<exists>n. v = Num n \<and> n \<noteq> 0)"
  by (cases v) (simp_all add: numVal_def)

subsection \<open>Substrings\<close>

text \<open>\<open>includes_str\<close> is the substring relation.\<close>

lemma startsWith_iff: "startsWith s p = (\<exists>t. s = p @ t)"
  by (induction s p rule: startsWith.induct) auto

lemma includes_str_iff: "includes_str s k = (\<exists>pre post. s = pre @ k @ post)"
proof (induction s)
  case Nil
  then show ?case by auto
next
  case (Cons c s)
  show ?case
  proof
    assume "includes_str (c # s) k"
    then consider "startsWith (c # s) k" | "includes_str s k" by auto
    then show "\<exists>pre post. c # s = pre @ k @ post"
    proof cases
      case 1
      then obtain t where "c # s = k @ t" by (auto simp: startsWith_iff)
      then have "c # s = [] @ k @ t" by simp
      then show ?thesis by blast
    next
      case 2
      then obtain pre post where "s = pre @ k @ post" using Cons.IH by auto
      then have "c # s = (c # pre) @ k @ post" by simp
      then show ?thesis by blast
    qed
  next
    assume "\<exists>pre post. c # s = pre @ k @ post"
    then obtain pre post where eq: "c # s = pre @ k @ post" by blast
    show "includes_str (c # s) k"
    proof (cases pre)
      case Nil
      then have "startsWith (c # s) k" using eq by (auto simp: startsWith_iff)
      then show ?thesis by simp
    next
      case (Cons a pre')
      then have "s = pre' @ k @ post" using eq by simp
      then have "includes_str s k" using Cons.IH by blast
      then show ?thesis by simp
    qed
  qed
qed

subsection \<open>The content hash\<close>

lemma toInt32_mod: "toInt32 x mod 2 ^ 32 = x mod 2 ^ 32"
  by (simp add: toInt32_def mod_simps)

lemma toInt32_cong: "a mod 2 ^ 32 = b mod 2 ^ 32 \<Longrightarrow> toInt32 a = toInt32 b"
proof -
  assume "a mod 2 ^ 32 = b mod 2 ^ 32"
  then have "(a + 2 ^ 31) mod 2 ^ 32 = (b + 2 ^ 31) mod 2 ^ 32"
    by (metis mod_add_cong)
  then show ?thesis by (simp add: toInt32_def)
qed

lemma toInt32_idem: "toInt32 (toInt32 x) = toInt32 x"
  by (rule toInt32_cong) (rule toInt32_mod)

lemma toInt32_range: "- (2 ^ 31) \<le> toInt32 x \<and> toInt32 x < 2 ^ 31"
  by (simp add: toInt32_def)

lemma mod_cong_sub_add:
  fixes a b h c m :: int
  assumes "a mod m = b mod m"
  shows "((a - h) + c) mod m = ((b - h) + c) mod m"
proof -
  have "(a - h) mod m = (b - h) mod m"
    using assms by (metis mod_diff_cong)
  then show ?thesis
    by (metis mod_add_cong)
qed

lemma hash_step_mod:
  "((toInt32 (h * 2 ^ 5) - h) + c) mod 2 ^ 32 = (31 * h + c) mod 2 ^ 32"
proof -
  have "((toInt32 (h * 2 ^ 5) - h) + c) mod 2 ^ 32 = (((h * 2 ^ 5) - h) + c) mod 2 ^ 32"
    by (rule mod_cong_sub_add) (rule toInt32_mod)
  moreover have "((h * 2 ^ 5) - h) + c = 31 * h + c"
    by simp
  ultimately show ?thesis by simp
qed

lemma rollingHash_cong:
  "a mod 2 ^ 32 = b mod 2 ^ 32 \<Longrightarrow> rollingHash a s mod 2 ^ 32 = rollingHash b s mod 2 ^ 32"
proof (induction s arbitrary: a b)
  case Nil
  then show ?case by simp
next
  case (Cons c s)
  have "(31 * a) mod 2 ^ 32 = (31 * b) mod 2 ^ 32"
    using Cons.prems by (rule mod_mult_cong [OF refl])
  then have "(31 * a + charCode c) mod 2 ^ 32 = (31 * b + charCode c) mod 2 ^ 32"
    by (rule mod_add_cong) (rule refl)
  then have "rollingHash (31 * a + charCode c) s mod 2 ^ 32
               = rollingHash (31 * b + charCode c) s mod 2 ^ 32"
    by (rule Cons.IH)
  then show ?case
    by (simp only: rollingHash.simps)
qed

lemma hashLoop_rollingHash:
  "toInt32 h = h \<Longrightarrow> hashLoop h s = toInt32 (rollingHash h s)"
proof (induction s arbitrary: h)
  case Nil
  then show ?case by simp
next
  case (Cons c s)
  let ?h' = "toInt32 ((toInt32 (h * 2 ^ 5) - h) + charCode c)"
  have "hashLoop h (c # s) = hashLoop ?h' s"
    by (simp only: hashLoop.simps)
  also have "\<dots> = toInt32 (rollingHash ?h' s)"
    by (rule Cons.IH) (rule toInt32_idem)
  also have "\<dots> = toInt32 (rollingHash (31 * h + charCode c) s)"
  proof (rule toInt32_cong, rule rollingHash_cong)
    show "?h' mod 2 ^ 32 = (31 * h + charCode c) mod 2 ^ 32"
      by (simp only: toInt32_mod hash_step_mod)
  qed
  finally show ?case
    by (simp only: rollingHash.simps)
qed

subsection \<open>The analysis client\<close>

lemma truthy_lowRisk: "truthy (lowRisk r) = (\<exists>n. riskScore r = Num n \<and> n \<noteq> 0 \<and> n < 40)"
  by (cases "riskScore r") (simp_all add: lowRisk_def truthy_jsAnd truthy_numVal numLess_def)

lemma truthy_determineSponsorStatus:
  "truthy (determineSponsorStatus r d) =
     (hasKeywords d \<and>
      ((\<exists>n. riskScore r = Num n \<and> n \<noteq> 0 \<and> n < 40)
       \<or> (\<exists>c. infoField r companyName = Some c \<and> c \<noteq> [])
       \<or> (\<exists>w. infoField r website = Some w \<and> w \<noteq> [])
       \<or> (sender d \<noteq> [] \<and> \<not> includes_str (sender d) ''gmail.com''
            \<and> \<not> includes_str (sender d) ''yahoo.com''
            \<and> \<not> includes_str (sender d) ''hotmail.com'')))"
  by (simp add: determineSponsorStatus_def truthy_jsAnd truthy_jsOr truthy_lowRisk
      hasBusinessInfo_def professionalSender_def truthy_strVal)

text \<open>
  On a successful remote analysis the result that is returned, be it the final result or
  the fallback after an exception in the sponsor branch, has a truthy \<open>isSponsor\<close> only if
  \<open>determineSponsorStatus\<close> was truthy.
\<close>

lemma success_isSponsor_determined:
  assumes "response_ok st"
    and "fst (analyzeEmailWithAI (HttpResponse st (JsonObject result)) clock sv emailData) = Inr final"
    and "truthy (isSponsor final)"
  shows "truthy (determineSponsorStatus result emailData)"
  using assms
  by (auto simp: analyzeEmailWithAI_def analysisAttempt_def Let_def
      split: if_splits sum.splits prod.splits)

text \<open>
  What the code guarantees on a successful remote analysis: a truthy \<open>isSponsor\<close> needs a
  keyword and one of the signals as the code tests them. The fourth is a test on the
  whole sender string: not empty and without the substrings \<open>gmail.com\<close>, \<open>yahoo.com\<close>,
  \<open>hotmail.com\<close>.
\<close>

lemma isSponsor_only_if:
  assumes "response_ok st"
    and "fst (analyzeEmailWithAI (HttpResponse st (JsonObject result)) clock sv emailData)
           = Inr final"
    and "truthy (isSponsor final)"
  shows "(\<exists>keyword \<in> set sponsorKeywords_determine.
            includes_str (toLowerCase (subject emailData @ '' '' @ body emailData)) keyword)
       \<and> ((\<exists>n. riskScore result = Num n \<and> n < 40)
          \<or> (\<exists>c. infoField result companyName = Some c \<and> c \<noteq> [])
          \<or> (\<exists>w. infoField result website = Some w \<and> w \<noteq> [])
          \<or> (sender emailData \<noteq> []
              \<and> \<not> includes_str (sender emailData) ''gmail.com''
              \<and> \<not> includes_str (sender emailData) ''yahoo.com''
              \<and> \<not> includes_str (sender emailData) ''hotmail.com''))"
proof -
  have "truthy (determineSponsorStatus result emailData)"
    using assms by (rule success_isSponsor_determined)
  then show ?thesis
    unfolding truthy_determineSponsorStatus
    by (auto simp: hasKeywords_def list_ex_iff Let_def)
qed

lemma fallback_keywords_subset: "set sponsorKeywords_fallback \<subseteq> set sponsorKeywords"
  by (simp add: sponsorKeywords_fallback_def sponsorKeywords_def)

lemma fallback_implies_prefilter: "fallbackSponsorDetection d \<Longrightarrow> hasSponsortKeywords d"
  using fallback_keywords_subset
  by (auto simp: fallbackSponsorDetection_def hasSponsortKeywords_def list_ex_iff Let_def)

lemma failure_gives_fallback:
  assumes "remoteCallFails fetched"
  shows "\<exists>err. fst (analyzeEmailWithAI fetched clock sv emailData)
               = Inr (fallbackAnalysis err emailData)"
  using assms
  by (auto simp: analyzeEmailWithAI_def analysisAttempt_def remoteCallFails_def Let_def
      split: fetch_outcome.splits)

text \<open>When the reconciler's result is truthy.\<close>

lemma truthy_isSponsorEmail:
  "truthy (isSponsorEmail r) =
     (truthy (isSponsor r)
      \<or> (\<exists>c. infoField r companyName = Some c \<and> c \<noteq> [])
      \<or> (\<exists>p. infoField r offer = Some p \<and> p \<noteq> [])
      \<or> (\<exists>n. riskScore r = Num n \<and> n \<noteq> 0 \<and> n < 50)
      \<or> (\<exists>fs. flags r = Some fs \<and> (\<exists>f \<in> set fs. flag_type f = ''green'')))"
proof -
  have a: "truthy (jsAnd (numVal (riskScore r)) (JBool (numLess (riskScore r) 50)))
            = (\<exists>n. riskScore r = Num n \<and> n \<noteq> 0 \<and> n < 50)"
    by (cases "riskScore r") (simp_all add: truthy_jsAnd truthy_numVal numLess_def)
  have b: "truthy (case flags r of None \<Rightarrow> JUndefined
                   | Some fs \<Rightarrow> JBool (list_ex (\<lambda>flag. flag_type flag = ''green'') fs))
            = (\<exists>fs. flags r = Some fs \<and> (\<exists>f \<in> set fs. flag_type f = ''green''))"
    by (cases "flags r") (simp_all add: list_ex_iff)
  show ?thesis
    unfolding isSponsorEmail_def truthy_jsOr a b truthy_strVal by blast
qed

lemma intToString_503: "intToString 503 = ''503''"
  by (simp add: intToString_def numberToString_def digits.simps digitChar_def)

subsection \<open>Extraction\<close>

lemma extract_shape:
  assumes "extractEmailData h element = Some emailData"
  shows "\<exists>subj sndr bodyText. emailData =
           \<lparr>email_id = getEmailId element, subject = slice0 subj 200, sender = slice0 sndr 100,
            body = slice0 bodyText 5000, timestamp = now h, url = href h\<rparr>"
proof (cases "(if textContent element \<noteq> [] then textContent element else innerText element) = []
              \<or> length (if textContent element \<noteq> [] then textContent element else innerText element) < 20")
  case True
  then have "extractEmailData h element = None"
    unfolding extractEmailData_def Let_def by (simp only: if_True)
  then show ?thesis using assms by simp
next
  case False
  then show ?thesis
    using assms unfolding extractEmailData_def Let_def
    by (simp only: if_False option.inject) blast
qed

lemma extract_email_id:
  assumes "extractEmailData h element = Some emailData"
  shows "email_id emailData = getEmailId element"
proof -
  obtain subj sndr bodyText where "emailData =
      \<lparr>email_id = getEmailId element, subject = slice0 subj 200, sender = slice0 sndr 100,
       body = slice0 bodyText 5000, timestamp = now h, url = href h\<rparr>"
    using extract_shape [OF assms] by blast
  then show ?thesis by simp
qed

subsection \<open>The pipeline\<close>

lemma analysisRequests_append:
  "analysisRequests (xs @ ys) = analysisRequests xs @ analysisRequests ys"
proof (induction xs)
  case Nil
  then show ?case by simp
next
  case (Cons ev xs)
  then show ?case by (cases ev) simp_all
qed

lemma processedEmails_logEvent: "processedEmails (logEvent ev a) = processedEmails a"
  by (simp add: logEvent_def)

lemma trace_logEvent: "trace (logEvent ev a) = trace a @ [ev]"
  by (simp add: logEvent_def)

lemma processedEmails_save: "processedEmails (saveProcessedEmails h a) = processedEmails a"
  by (simp add: saveProcessedEmails_def logEvent_def split: option.splits)

lemma trace_save:
  "\<exists>ev. trace (saveProcessedEmails h a) = trace a @ [ev] \<and> analysisRequests [ev] = []"
  by (cases "storageError h") (simp_all add: saveProcessedEmails_def logEvent_def)

lemma processedEmails_mark: "processedEmails (markAsSponsorEmail element result a) = processedEmails a"
  by (simp add: markAsSponsorEmail_def logEvent_def split: option.splits)

lemma trace_mark:
  "\<exists>evs. trace (markAsSponsorEmail element result a) = trace a @ evs \<and> analysisRequests evs = []"
proof (cases "querySelector element ''.sponsor-guard-label''")
  case None
  then have "trace (markAsSponsorEmail element result a)
               = trace a @ [LabelInserted (getEmailId element) (confidence result)]"
    by (simp add: markAsSponsorEmail_def logEvent_def)
  then show ?thesis by simp
next
  case (Some label)
  then have "trace (markAsSponsorEmail element result a) = trace a @ []"
    by (simp add: markAsSponsorEmail_def)
  then show ?thesis by (metis analysisRequests.simps(1))
qed

lemma processEmail_unfold:
  "processEmail h a element =
     (if getEmailId element \<in> set (processedEmails a)
      then logEvent (LedgerCheck (getEmailId element)) a
      else
        let a3 = saveProcessedEmails h
                   (logEvent (LedgerInsert (getEmailId element))
                      ((logEvent (LedgerCheck (getEmailId element)) a)
                         \<lparr>processedEmails := setAdd (getEmailId element) (processedEmails a)\<rparr>))
        in case extractEmailData h element of
             None \<Rightarrow> a3
           | Some emailData \<Rightarrow>
               if \<not> hasSponsortKeywords emailData then a3
               else afterRequest h element emailData (logEvent (AnalysisRequest emailData) a3))"
  by (simp add: processEmail_def Let_def processedEmails_logEvent split: option.splits)

lemma afterRequest_processed: "processedEmails (afterRequest h element emailData a) = processedEmails a"
  by (simp add: afterRequest_def Let_def processedEmails_mark processedEmails_logEvent)

lemma afterRequest_trace:
  "\<exists>evs. trace (afterRequest h element emailData a) = trace a @ evs \<and> analysisRequests evs = []"
proof -
  let ?result = "sendToAnalysis h emailData"
  consider (err) "truthy (strVal (error ?result))"
    | (sponsor) "\<not> truthy (strVal (error ?result))" "truthy (isSponsorEmail ?result)"
    | (none) "\<not> truthy (strVal (error ?result))" "\<not> truthy (isSponsorEmail ?result)"
    by blast
  then show ?thesis
  proof cases
    case err
    let ?a5 = "a\<lparr>sponsorEmails := sponsorEmails a @ [contentFallbackResult emailData]\<rparr>"
    have "afterRequest h element emailData a
            = markAsSponsorEmail element (contentFallbackResult emailData) ?a5"
      using err by (simp add: afterRequest_def Let_def)
    moreover have "trace ?a5 = trace a" by simp
    ultimately show ?thesis
      using trace_mark [of element "contentFallbackResult emailData" ?a5] by simp
  next
    case sponsor
    let ?a5 = "a\<lparr>sponsorEmails := sponsorEmails a @ [?result]\<rparr>"
    have eq: "afterRequest h element emailData a
            = logEvent (DocsRequest ?result) (markAsSponsorEmail element ?result ?a5)"
      using sponsor by (simp add: afterRequest_def Let_def)
    obtain evs where evs: "trace (markAsSponsorEmail element ?result ?a5) = trace ?a5 @ evs"
      "analysisRequests evs = []"
      using trace_mark by blast
    have "trace (afterRequest h element emailData a) = trace a @ (evs @ [DocsRequest ?result])"
      using eq evs by (simp add: trace_logEvent)
    moreover have "analysisRequests (evs @ [DocsRequest ?result]) = []"
      using evs by (simp add: analysisRequests_append)
    ultimately show ?thesis by blast
  next
    case none
    then have "trace (afterRequest h element emailData a) = trace a @ []"
      by (simp add: afterRequest_def Let_def)
    then show ?thesis by (metis analysisRequests.simps(1))
  qed
qed

lemma processEmail_processed:
  "processedEmails (processEmail h a element) = setAdd (getEmailId element) (processedEmails a)"
  by (simp add: processEmail_unfold Let_def processedEmails_logEvent processedEmails_save
      afterRequest_processed setAdd_def split: option.splits)


lemma processEmail_requests:
  "analysisRequests (trace (processEmail h a element)) =
     analysisRequests (trace a) @
       (if getEmailId element \<in> set (processedEmails a) then []
        else case extractEmailData h element of
               None \<Rightarrow> []
             | Some emailData \<Rightarrow> if hasSponsortKeywords emailData then [emailData] else [])"
proof (cases "getEmailId element \<in> set (processedEmails a)")
  case True
  then show ?thesis
    by (simp add: processEmail_unfold trace_logEvent analysisRequests_append)
next
  case False
  let ?ident = "getEmailId element"
  let ?a2 = "logEvent (LedgerInsert ?ident)
               ((logEvent (LedgerCheck ?ident) a)
                  \<lparr>processedEmails := setAdd ?ident (processedEmails a)\<rparr>)"
  let ?a3 = "saveProcessedEmails h ?a2"
  have t2: "trace ?a2 = trace a @ [LedgerCheck ?ident, LedgerInsert ?ident]"
    by (simp add: logEvent_def)
  obtain ev where ev: "trace ?a3 = trace ?a2 @ [ev]" "analysisRequests [ev] = []"
    using trace_save by blast
  have r3: "analysisRequests (trace ?a3) = analysisRequests (trace a)"
    using ev t2 by (simp add: analysisRequests_append)
  show ?thesis
  proof (cases "extractEmailData h element")
    case None
    then show ?thesis
      using False r3 by (simp add: processEmail_unfold Let_def)
  next
    case (Some emailData)
    show ?thesis
    proof (cases "hasSponsortKeywords emailData")
      case False
      then show ?thesis
        using \<open>?ident \<notin> set (processedEmails a)\<close> Some r3
        by (simp add: processEmail_unfold Let_def)
    next
      case True
      let ?a4 = "logEvent (AnalysisRequest emailData) ?a3"
      obtain evs where evs: "trace (afterRequest h element emailData ?a4) = trace ?a4 @ evs"
        "analysisRequests evs = []"
        using afterRequest_trace by blast
      have "analysisRequests (trace (afterRequest h element emailData ?a4))
              = analysisRequests (trace a) @ [emailData]"
        using evs r3 by (simp add: trace_logEvent analysisRequests_append)
      then show ?thesis
        using \<open>?ident \<notin> set (processedEmails a)\<close> Some True
        by (simp add: processEmail_unfold Let_def)
    qed
  qed
qed

lemma request_in_set:
  "AnalysisRequest emailData \<in> set evs \<Longrightarrow> analysisRequests evs \<noteq> []"
proof (induction evs)
  case Nil
  then show ?case by simp
next
  case (Cons ev evs)
  then show ?case by (cases ev) auto
qed

lemma ledgerBefore_append: "ledgerBefore evs ident \<Longrightarrow> ledgerBefore (evs @ later) ident"
proof -
  assume "ledgerBefore evs ident"
  then obtain evs1 evs2 evs3
    where "evs = evs1 @ LedgerCheck ident # evs2 @ LedgerInsert ident # evs3"
    unfolding ledgerBefore_def by blast
  then have "evs @ later = evs1 @ LedgerCheck ident # evs2 @ LedgerInsert ident # (evs3 @ later)"
    by simp
  then show ?thesis
    unfolding ledgerBefore_def by blast
qed

lemma ledgerFirst_append:
  assumes "ledgerFirst evs" and "analysisRequests later = []"
  shows "ledgerFirst (evs @ later)"
  unfolding ledgerFirst_def
proof (intro allI impI)
  fix before emailData after
  assume eq: "evs @ later = before @ AnalysisRequest emailData # after"
  have notin: "AnalysisRequest emailData \<notin> set later"
    using assms(2) request_in_set by blast
  from eq obtain us where
    "(evs = before @ us \<and> us @ later = AnalysisRequest emailData # after)
     \<or> (evs @ us = before \<and> later = us @ AnalysisRequest emailData # after)"
    by (auto simp: append_eq_append_conv2)
  then have "\<exists>after'. evs = before @ AnalysisRequest emailData # after'"
    using notin by (cases us) auto
  then show "ledgerBefore before (email_id emailData)"
    using assms(1) unfolding ledgerFirst_def by blast
qed

lemma ledgerFirst_request:
  assumes "ledgerFirst evs" and "ledgerBefore evs (email_id emailData)"
  shows "ledgerFirst (evs @ [AnalysisRequest emailData])"
  unfolding ledgerFirst_def
proof (intro allI impI)
  fix before d after
  assume eq: "evs @ [AnalysisRequest emailData] = before @ AnalysisRequest d # after"
  show "ledgerBefore before (email_id d)"
  proof (cases after rule: rev_cases)
    case Nil
    then have "before = evs" and "d = emailData"
      using eq by simp_all
    then show ?thesis using assms(2) by simp
  next
    case (snoc after' ev)
    then have "evs = before @ AnalysisRequest d # after'"
      using eq by simp
    then show ?thesis
      using assms(1) unfolding ledgerFirst_def by blast
  qed
qed

lemma processEmail_ledgerFirst:
  assumes "ledgerFirst (trace a)"
  shows "ledgerFirst (trace (processEmail h a element))"
proof (cases "getEmailId element \<in> set (processedEmails a)")
  case True
  have "analysisRequests [LedgerCheck (getEmailId element)] = []"
    by simp
  then have "ledgerFirst (trace a @ [LedgerCheck (getEmailId element)])"
    using assms by (rule ledgerFirst_append [rotated])
  then show ?thesis
    using True by (simp add: processEmail_unfold trace_logEvent)
next
  case False
  let ?ident = "getEmailId element"
  let ?a2 = "logEvent (LedgerInsert ?ident)
               ((logEvent (LedgerCheck ?ident) a)
                  \<lparr>processedEmails := setAdd ?ident (processedEmails a)\<rparr>)"
  let ?a3 = "saveProcessedEmails h ?a2"
  have t2: "trace ?a2 = trace a @ [LedgerCheck ?ident, LedgerInsert ?ident]"
    by (simp add: logEvent_def)
  obtain ev where ev: "trace ?a3 = trace ?a2 @ [ev]" "analysisRequests [ev] = []"
    using trace_save by blast
  have t3: "trace ?a3 = trace a @ [LedgerCheck ?ident, LedgerInsert ?ident, ev]"
    using ev t2 by simp
  have "analysisRequests [LedgerCheck ?ident, LedgerInsert ?ident, ev] = []"
    using ev(2) by simp
  then have f3: "ledgerFirst (trace ?a3)"
    unfolding t3 using assms by (rule ledgerFirst_append [rotated])
  have b3: "ledgerBefore (trace ?a3) ?ident"
  proof -
    have "trace ?a3 = trace a @ LedgerCheck ?ident # [] @ LedgerInsert ?ident # [ev]"
      using t3 by simp
    then show ?thesis
      unfolding ledgerBefore_def by blast
  qed
  show ?thesis
  proof (cases "extractEmailData h element")
    case None
    then show ?thesis
      using False f3 by (simp add: processEmail_unfold Let_def)
  next
    case (Some emailData)
    show ?thesis
    proof (cases "hasSponsortKeywords emailData")
      case False
      then show ?thesis
        using \<open>?ident \<notin> set (processedEmails a)\<close> Some f3
        by (simp add: processEmail_unfold Let_def)
    next
      case True
      let ?a4 = "logEvent (AnalysisRequest emailData) ?a3"
      have "email_id emailData = ?ident"
        using Some by (rule extract_email_id)
      then have "ledgerFirst (trace ?a3 @ [AnalysisRequest emailData])"
        using f3 b3 by (simp add: ledgerFirst_request)
      then have f4: "ledgerFirst (trace ?a4)"
        by (simp add: trace_logEvent)
      obtain evs where evs: "trace (afterRequest h element emailData ?a4) = trace ?a4 @ evs"
        "analysisRequests evs = []"
        using afterRequest_trace by blast
      have "ledgerFirst (trace (afterRequest h element emailData ?a4))"
        unfolding evs(1) using f4 evs(2) by (rule ledgerFirst_append)
      then show ?thesis
        using \<open>?ident \<notin> set (processedEmails a)\<close> Some True
        by (simp add: processEmail_unfold Let_def)
    qed
  qed
qed

lemma processEmail_ledgerInv:
  assumes "ledgerInv a"
  shows "ledgerInv (processEmail h a element)"
  unfolding ledgerInv_def
proof
  fix ident
  let ?a' = "processEmail h a element"
  have old: "analysisCalls ident (trace a) \<le> (if ident \<in> set (processedEmails a) then 1 else 0)"
    using assms unfolding ledgerInv_def by blast
  show "analysisCalls ident (trace ?a') \<le> (if ident \<in> set (processedEmails ?a') then 1 else 0)"
  proof (cases "getEmailId element \<in> set (processedEmails a)")
    case True
    then have "analysisCalls ident (trace ?a') = analysisCalls ident (trace a)"
      by (simp add: analysisCalls_def processEmail_requests)
    moreover have "processedEmails ?a' = processedEmails a"
      using True by (simp add: processEmail_processed setAdd_def)
    ultimately show ?thesis using old by simp
  next
    case False
    have proc: "set (processedEmails ?a') = insert (getEmailId element) (set (processedEmails a))"
      using False by (simp add: processEmail_processed setAdd_def)
    have new: "\<exists>ds. analysisRequests (trace ?a') = analysisRequests (trace a) @ ds
                 \<and> length ds \<le> 1 \<and> (\<forall>d \<in> set ds. email_id d = getEmailId element)"
    proof (cases "extractEmailData h element")
      case None
      then show ?thesis using False by (simp add: processEmail_requests)
    next
      case (Some emailData)
      then have "email_id emailData = getEmailId element"
        by (rule extract_email_id)
      then show ?thesis using False Some by (simp add: processEmail_requests)
    qed
    then obtain ds where ds: "analysisRequests (trace ?a') = analysisRequests (trace a) @ ds"
      "length ds \<le> 1" "\<forall>d \<in> set ds. email_id d = getEmailId element"
      by blast
    show ?thesis
    proof (cases "ident = getEmailId element")
      case True
      then have "analysisCalls ident (trace a) = 0"
        using old False by simp
      moreover have "length (filter (\<lambda>d. email_id d = ident) ds) \<le> 1"
        using ds(2) by (meson le_trans length_filter_le)
      ultimately have "analysisCalls ident (trace ?a') \<le> 1"
        using ds(1) by (simp add: analysisCalls_def)
      then show ?thesis using True proc by simp
    next
      case False
      then have "filter (\<lambda>d. email_id d = ident) ds = []"
        using ds(3) by (auto simp: filter_empty_conv)
      then have "analysisCalls ident (trace ?a') = analysisCalls ident (trace a)"
        using ds(1) by (simp add: analysisCalls_def)
      then show ?thesis using old False proc by simp
    qed
  qed
qed

lemma processAll_invariants:
  "ledgerInv a \<Longrightarrow> ledgerFirst (trace a)
     \<Longrightarrow> ledgerInv (processAll a invocations) \<and> ledgerFirst (trace (processAll a invocations))"
proof (induction invocations arbitrary: a)
  case Nil
  then show ?case by simp
next
  case (Cons inv invocations)
  obtain h element where inv: "inv = (h, element)"
    by (cases inv)
  have "ledgerInv (processEmail h a element)"
    using Cons.prems(1) by (rule processEmail_ledgerInv)
  moreover have "ledgerFirst (trace (processEmail h a element))"
    using Cons.prems(2) by (rule processEmail_ledgerFirst)
  ultimately show ?case
    using Cons.IH inv by simp
qed

text \<open>
  What an invocation adds to the trace, and what it does to the rest of the state, does
  not depend on the trace it starts from.
\<close>

lemma rebase_processEmail:
  "processEmail h a element =
     (processEmail h (a\<lparr>trace := []\<rparr>) element)
       \<lparr>trace := trace a @ trace (processEmail h (a\<lparr>trace := []\<rparr>) element)\<rparr>"
  by (simp add: processEmail_def afterRequest_def Let_def logEvent_def saveProcessedEmails_def
      markAsSponsorEmail_def split: option.splits)

lemma processEmail_rebased:
  "trace (processEmail h a element) = trace a @ trace (processEmail h (a\<lparr>trace := []\<rparr>) element)"
  "(processEmail h a element)\<lparr>trace := []\<rparr>
     = (processEmail h (a\<lparr>trace := []\<rparr>) element)\<lparr>trace := []\<rparr>"
  by (subst rebase_processEmail, simp)+

lemma processAll_rebased:
  "trace (processAll a invocations)
     = trace a @ trace (processAll (a\<lparr>trace := []\<rparr>) invocations)"
proof (induction invocations arbitrary: a)
  case Nil
  then show ?case by simp
next
  case (Cons inv invocations)
  obtain h element where inv: "inv = (h, element)"
    by (cases inv)
  let ?b = "processEmail h a element"
  let ?c = "processEmail h (a\<lparr>trace := []\<rparr>) element"
  have same: "?b\<lparr>trace := []\<rparr> = ?c\<lparr>trace := []\<rparr>"
    by (rule processEmail_rebased(2))
  have "trace (processAll ?b invocations)
          = trace ?b @ trace (processAll (?b\<lparr>trace := []\<rparr>) invocations)"
    by (rule Cons.IH)
  moreover have "trace (processAll ?c invocations)
          = trace ?c @ trace (processAll (?c\<lparr>trace := []\<rparr>) invocations)"
    by (rule Cons.IH)
  moreover have "trace ?b = trace a @ trace ?c"
    by (rule processEmail_rebased(1))
  ultimately show ?case
    using inv same by simp
qed

lemma addedEvents_processAll:
  "trace (processAll a invocations) = trace a @ addedEvents a (processAll a invocations)"
  "addedEvents a (processAll a invocations) = trace (processAll (a\<lparr>trace := []\<rparr>) invocations)"
  using processAll_rebased [of a invocations] by (simp_all add: addedEvents_def)

subsection \<open>The sample nodes\<close>


lemma extract_listRowNode: "extractEmailData quietHost listRowNode = Some listRowRecord"
  by code_simp

lemma quietHost_fields: "storageError quietHost = None" "reply quietHost = Response None"
  by (simp_all add: quietHost_def)

lemma extract_proposalRow: "extractEmailData quietHost proposalRow = Some proposalRecord"
  by code_simp

lemma getEmailId_proposalRow: "getEmailId proposalRow = ''thread_18c6''"
  by (simp add: getEmailId_def proposalRow_def truthyAttr_def)

lemma keywords_proposalRecord: "hasSponsortKeywords proposalRecord"
  by code_simp

lemma meaningful_proposalRow: "meaningful proposalRow"
  by (simp add: meaningful_def proposalRow_def)

lemmas pipeline_eval =
  processEmail_unfold Let_def quietHost_fields afterRequest_def sendToAnalysis_def
  newAgent_def logEvent_def saveProcessedEmails_def setAdd_def isSponsorEmail_def
  emptyResult_def jsOr_def jsAnd_def strVal_def numVal_def infoField_def
  rescanEmails_def resetProcessed_def processExistingEmails_def clearProcessed_def

lemma afterRescan_eq:
  "afterRescan =
     \<lparr>processedEmails = [], sponsorEmails = [], storage = [''thread_18c6''],
      trace = [LedgerCheck ''thread_18c6'', LedgerInsert ''thread_18c6'',
               Persisted [''thread_18c6''], AnalysisRequest proposalRecord, LedgerCleared]\<rparr>"
  by (simp add: afterRescan_def pipeline_eval getEmailId_proposalRow extract_proposalRow
      keywords_proposalRecord)

lemma added_afterRescan:
  "addedEvents afterRescan
     (processAll afterRescan [(quietHost, proposalRow), (quietHost, proposalRow)])
     = [LedgerCheck ''thread_18c6'', LedgerInsert ''thread_18c6'', Persisted [''thread_18c6'']]
       @ AnalysisRequest proposalRecord # [LedgerCheck ''thread_18c6'']"
  by (simp add: afterRescan_eq addedEvents_def pipeline_eval getEmailId_proposalRow
      extract_proposalRow keywords_proposalRecord)

lemma url_proposalRecord: "extractWebsiteFromEmail proposalRecord = Inr ''www.brandco.example''"
  by code_simp

lemma determine_proposalRecord:
  "determineSponsorStatus riskyRemoteResult proposalRecord = JBool True"
  by code_simp

subsection \<open>The claims\<close>

text \<open>
  C1. When the remote call fails (\<open>fetch\<close> rejects, or the status is not a success),
  \<open>analyzeEmailWithAI\<close> returns a result with risk score 50, status \<open>warning\<close> and exactly
  one flag, of the type \<open>yellow\<close> (caution). Its \<open>isSponsor\<close> is the result of
  \<open>fallbackSponsorDetection\<close>, the background service's own check against eight keywords,
  on the record: when that is true the keyword prefilter \<open>hasSponsortKeywords\<close> is true
  as well.
\<close>

theorem fallback_on_remote_failure:
  assumes "remoteCallFails fetched"
  shows "\<exists>r. fst (analyzeEmailWithAI fetched clock sv emailData) = Inr r
           \<and> riskScore r = Num 50
           \<and> status r = Some ''warning''
           \<and> flags r = Some [\<lparr>flag_type = ''yellow'',
                                message = ''API unavailable - using fallback detection''\<rparr>]
           \<and> isSponsor r = JBool (fallbackSponsorDetection emailData)
           \<and> (fallbackSponsorDetection emailData \<longrightarrow> hasSponsortKeywords emailData)"
proof -
  obtain err where "fst (analyzeEmailWithAI fetched clock sv emailData)
                      = Inr (fallbackAnalysis err emailData)"
    using failure_gives_fallback [OF assms] by blast
  then show ?thesis
    by (simp add: fallbackAnalysis_def fallback_implies_prefilter)
qed

theorem fallback_on_remote_failure_witness:
  "remoteCallFails (HttpResponse 503 JsonNull)
   \<and> (\<exists>r. fst (analyzeEmailWithAI (HttpResponse 503 JsonNull) ''2024-05-01T10:00:01.000Z''
                  idleService sampleEmail) = Inr r
          \<and> riskScore r = Num 50
          \<and> status r = Some ''warning''
          \<and> flags r = Some [\<lparr>flag_type = ''yellow'',
                               message = ''API unavailable - using fallback detection''\<rparr>]
          \<and> isSponsor r = JBool (fallbackSponsorDetection sampleEmail)
          \<and> (fallbackSponsorDetection sampleEmail \<longrightarrow> hasSponsortKeywords sampleEmail))
   \<and> fallbackSponsorDetection sampleEmail"
proof -
  have h: "remoteCallFails (HttpResponse 503 JsonNull)"
    by (simp add: remoteCallFails_def response_ok_def)
  have k: "fallbackSponsorDetection sampleEmail"
    by code_simp
  show ?thesis
    using h k fallback_on_remote_failure [OF h, of "''2024-05-01T10:00:01.000Z''" idleService sampleEmail]
    by simp
qed

text \<open>
  The converse fails, so \<open>isSponsor\<close> is not the prefilter's result: a message that passes
  the prefilter on the keyword \<open>offer\<close> gets \<open>isSponsor = false\<close> in the fallback.
\<close>

theorem fallback_isSponsor_counterexample:
  "remoteCallFails (NetworkFailure ''Failed to fetch'')
   \<and> fst (analyzeEmailWithAI (NetworkFailure ''Failed to fetch'') ''2024-05-01T10:00:01.000Z''
            idleService offerEmail)
       = Inr (fallbackAnalysis (TypeError ''Failed to fetch'') offerEmail)
   \<and> isSponsor (fallbackAnalysis (TypeError ''Failed to fetch'') offerEmail) = JBool False
   \<and> hasSponsortKeywords offerEmail"
proof -
  have "remoteCallFails (NetworkFailure ''Failed to fetch'')"
    by (simp add: remoteCallFails_def)
  moreover have "fst (analyzeEmailWithAI (NetworkFailure ''Failed to fetch'')
                        ''2024-05-01T10:00:01.000Z'' idleService offerEmail)
                   = Inr (fallbackAnalysis (TypeError ''Failed to fetch'') offerEmail)"
    by (simp add: analyzeEmailWithAI_def analysisAttempt_def Let_def)
  moreover have "\<not> fallbackSponsorDetection offerEmail"
    by code_simp
  then have "isSponsor (fallbackAnalysis (TypeError ''Failed to fetch'') offerEmail) = JBool False"
    by (simp add: fallbackAnalysis_def)
  moreover have "hasSponsortKeywords offerEmail"
    by code_simp
  ultimately show ?thesis by blast
qed

text \<open>
  C2. The reconciler \<open>isSponsorEmail\<close> at a result with risk score 0 and no other signal:
  the guard \<open>result.riskScore &&\<close> is falsy at 0, so the result is \<open>false\<close>, although
  \<open>0 < 50\<close>. (\<open>truthy_isSponsorEmail\<close> above says when the result is truthy.)
\<close>

theorem isSponsorEmail_riskScore_zero:
  "isSponsorEmail
     (emptyResult
        \<lparr>isSponsor := JBool False, riskScore := Num 0, status := Some ''safe'', flags := Some [],
         extractedInfo := Some \<lparr>companyName = None, website = None, contactPerson = None,
                                 offer = None, agenda = None\<rparr>\<rparr>)
   = JBool False"
  by (simp add: isSponsorEmail_def emptyResult_def jsOr_def jsAnd_def strVal_def numVal_def
      infoField_def)

text \<open>
  C3. For every sequence of invocations of \<open>processEmail\<close> during which the processed set
  is not cleared, from whatever state it starts (the start of a session, or the state
  right after a clearing): among the events that the sequence adds to the trace there is
  at most one analysis request for any identity, and every analysis request comes after
  the membership check and the insertion into the processed set for its identity.
\<close>

theorem at_most_one_analysis_between_resets:
  "trace (processAll a invocations) = trace a @ addedEvents a (processAll a invocations)
   \<and> analysisCalls ident (addedEvents a (processAll a invocations)) \<le> 1
   \<and> (\<forall>before emailData after.
         addedEvents a (processAll a invocations) = before @ AnalysisRequest emailData # after
           \<longrightarrow> (\<exists>evs1 evs2 evs3.
                  before = evs1 @ LedgerCheck (email_id emailData) # evs2
                             @ LedgerInsert (email_id emailData) # evs3))"
proof -
  let ?a0 = "a\<lparr>trace := []\<rparr>"
  have "ledgerInv ?a0"
    by (simp add: ledgerInv_def analysisCalls_def)
  moreover have "ledgerFirst (trace ?a0)"
    by (simp add: ledgerFirst_def)
  ultimately have inv: "ledgerInv (processAll ?a0 invocations)"
    and first: "ledgerFirst (trace (processAll ?a0 invocations))"
    using processAll_invariants by blast+
  have "analysisCalls ident (trace (processAll ?a0 invocations)) \<le> 1"
    using inv unfolding ledgerInv_def
    by (metis (full_types) le_trans zero_le_one order_refl)
  then show ?thesis
    using first addedEvents_processAll [of a invocations]
    unfolding ledgerFirst_def ledgerBefore_def by simp
qed

theorem at_most_one_analysis_between_resets_witness:
  "analysisCalls ''thread_18c6'' (trace afterRescan) = 1
   \<and> addedEvents afterRescan
         (processAll afterRescan [(quietHost, proposalRow), (quietHost, proposalRow)])
       = [LedgerCheck ''thread_18c6'', LedgerInsert ''thread_18c6'',
          Persisted [''thread_18c6'']]
         @ AnalysisRequest proposalRecord # [LedgerCheck ''thread_18c6'']
   \<and> analysisCalls ''thread_18c6''
         (addedEvents afterRescan
            (processAll afterRescan [(quietHost, proposalRow), (quietHost, proposalRow)]))
       \<le> 1
   \<and> (\<exists>evs1 evs2 evs3.
         [LedgerCheck ''thread_18c6'', LedgerInsert ''thread_18c6'',
          Persisted [''thread_18c6'']]
           = evs1 @ LedgerCheck (email_id proposalRecord) # evs2
               @ LedgerInsert (email_id proposalRecord) # evs3)"
proof -
  have c: "analysisCalls ''thread_18c6'' (trace afterRescan) = 1"
    by (simp add: afterRescan_eq analysisCalls_def proposalRecord_def)
  show ?thesis
    using c added_afterRescan
      at_most_one_analysis_between_resets
        [of afterRescan "[(quietHost, proposalRow), (quietHost, proposalRow)]"
           "''thread_18c6''"]
    by blast
qed

text \<open>
  Over a whole session the bound fails: the handler of \<open>resetProcessed\<close> clears the set
  and scans the page again, so a conversation that was analysed and got no label is
  analysed a second time under the same identity.
\<close>

theorem analysis_repeated_after_reset_counterexample:
  "meaningful proposalRow
   \<and> getEmailId proposalRow = ''thread_18c6''
   \<and> trace (runSession newAgent
               [Invoke quietHost proposalRow, ResetProcessed quietHost [(quietHost, proposalRow)]])
       = [LedgerCheck ''thread_18c6'', LedgerInsert ''thread_18c6'',
          Persisted [''thread_18c6''], AnalysisRequest proposalRecord,
          LedgerCleared, Persisted [],
          LedgerCheck ''thread_18c6'', LedgerInsert ''thread_18c6'',
          Persisted [''thread_18c6''], AnalysisRequest proposalRecord]
   \<and> analysisCalls ''thread_18c6''
         (trace (runSession newAgent
                   [Invoke quietHost proposalRow,
                    ResetProcessed quietHost [(quietHost, proposalRow)]]))
       = 2"
proof -
  have t: "trace (runSession newAgent
               [Invoke quietHost proposalRow, ResetProcessed quietHost [(quietHost, proposalRow)]])
       = [LedgerCheck ''thread_18c6'', LedgerInsert ''thread_18c6'',
          Persisted [''thread_18c6''], AnalysisRequest proposalRecord,
          LedgerCleared, Persisted [],
          LedgerCheck ''thread_18c6'', LedgerInsert ''thread_18c6'',
          Persisted [''thread_18c6''], AnalysisRequest proposalRecord]"
    by (simp add: pipeline_eval getEmailId_proposalRow extract_proposalRow
        keywords_proposalRecord meaningful_proposalRow)
  have "analysisCalls ''thread_18c6''
         (trace (runSession newAgent
                   [Invoke quietHost proposalRow,
                    ResetProcessed quietHost [(quietHost, proposalRow)]])) = 2"
    unfolding t by (simp add: analysisCalls_def proposalRecord_def)
  then show ?thesis
    using t meaningful_proposalRow getEmailId_proposalRow by blast
qed

text \<open>
  C4. For every risk score between 0 and 100, the class that \<open>addChecklistSummary\<close>
  derives from it is \<open>safe\<close> up to 40, \<open>warning\<close> from 41 to 70 and \<open>danger\<close> above 70;
  in particular 0 and 40 give \<open>safe\<close>, 41 gives \<open>warning\<close>, 71 and 100 give \<open>danger\<close>.
\<close>

theorem scoreClass_thresholds:
  assumes "0 \<le> r" and "r \<le> 100"
  shows "scoreClass r = (if r \<le> 40 then ''safe'' else if r \<le> 70 then ''warning'' else ''danger'')
       \<and> scoreClass 0 = ''safe'' \<and> scoreClass 40 = ''safe'' \<and> scoreClass 41 = ''warning''
       \<and> scoreClass 71 = ''danger'' \<and> scoreClass 100 = ''danger''"
  by (simp add: scoreClass_def)

theorem scoreClass_thresholds_witness:
  "(0::int) \<le> 55 \<and> (55::int) \<le> 100 \<and> scoreClass 55 = ''warning''"
  using scoreClass_thresholds [of 55] by simp

text \<open>
  C5. For a node without a host-provided identifier (no non-empty \<open>data-thread-id\<close>,
  \<open>data-message-id\<close>, \<open>data-legacy-thread-id\<close> attribute and no \<open>id\<close>), the identity is
  \<open>content_\<close>, the base-36 encoding of the absolute value of the hash, \<open>_\<close>, and the
  decimal position of the node among its siblings (\<open>-1\<close> without parent); the hash is the
  multiply-by-31 accumulation over the first 200 characters of the text, reduced to a
  signed 32-bit integer.
\<close>

theorem fallback_identity:
  assumes "truthyAttr (attributes element ''data-thread-id'') = None"
    and "truthyAttr (attributes element ''data-message-id'') = None"
    and "truthyAttr (attributes element ''data-legacy-thread-id'') = None"
    and "element_id element = []"
  shows "getEmailId element =
           ''content_''
           @ toString36 \<bar>toInt32 (rollingHash 0 (take 200 (textContent element)))\<bar>
           @ ''_'' @ intToString (position element)"
proof -
  have "toInt32 0 = 0"
    by (simp add: toInt32_def)
  then have "hashLoop 0 (take 200 (textContent element))
               = toInt32 (rollingHash 0 (take 200 (textContent element)))"
    by (rule hashLoop_rollingHash)
  then show ?thesis
    using assms by (simp add: getEmailId_def simpleHash_def slice0_def Let_def)
qed

theorem fallback_identity_witness:
  "truthyAttr (attributes proposalNode ''data-thread-id'') = None
   \<and> truthyAttr (attributes proposalNode ''data-message-id'') = None
   \<and> truthyAttr (attributes proposalNode ''data-legacy-thread-id'') = None
   \<and> element_id proposalNode = []
   \<and> getEmailId proposalNode =
         ''content_''
         @ toString36 \<bar>toInt32 (rollingHash 0 (take 200 (textContent proposalNode)))\<bar>
         @ ''_'' @ intToString (position proposalNode)
   \<and> toInt32 (rollingHash 0 (take 200 (textContent proposalNode))) = - 1056057025
   \<and> toString36 1056057025 = ''hgqytd''"
proof -
  have h1: "truthyAttr (attributes proposalNode ''data-thread-id'') = None"
    and h2: "truthyAttr (attributes proposalNode ''data-message-id'') = None"
    and h3: "truthyAttr (attributes proposalNode ''data-legacy-thread-id'') = None"
    and h4: "element_id proposalNode = []"
    by (simp_all add: proposalNode_def truthyAttr_def)
  have v: "toInt32 (rollingHash 0 (take 200 (textContent proposalNode))) = - 1056057025"
    by code_simp
  have d: "toString36 1056057025 = ''hgqytd''"
    by code_simp
  show ?thesis
    using h1 h2 h3 h4 v d fallback_identity [OF h1 h2 h3 h4] by blast
qed

text \<open>
  The identity is not the encoding of the hash wrapped to an unsigned number followed by
  the position: where the signed hash is negative, \<open>Math.abs\<close> gives other digits than the
  wrap-around would, and the identity has the prefix and the separator besides.
\<close>

theorem fallback_identity_counterexample:
  "truthyAttr (attributes proposalNode ''data-thread-id'') = None
   \<and> truthyAttr (attributes proposalNode ''data-message-id'') = None
   \<and> truthyAttr (attributes proposalNode ''data-legacy-thread-id'') = None
   \<and> element_id proposalNode = []
   \<and> getEmailId proposalNode = ''content_hgqytd_0''
   \<and> spec_fallbackIdentity proposalNode = ''1hkd35r0''
   \<and> \<not> includes_str (getEmailId proposalNode)
         (toString36 (rollingHash 0 (slice0 (textContent proposalNode) 200) mod 2 ^ 32))"
proof -
  have "truthyAttr (attributes proposalNode ''data-thread-id'') = None"
    and "truthyAttr (attributes proposalNode ''data-message-id'') = None"
    and "truthyAttr (attributes proposalNode ''data-legacy-thread-id'') = None"
    and "element_id proposalNode = []"
    by (simp_all add: proposalNode_def truthyAttr_def)
  moreover have "getEmailId proposalNode = ''content_hgqytd_0''"
    by code_simp
  moreover have "spec_fallbackIdentity proposalNode = ''1hkd35r0''"
    by code_simp
  moreover have "\<not> includes_str (getEmailId proposalNode)
         (toString36 (rollingHash 0 (slice0 (textContent proposalNode) 200) mod 2 ^ 32))"
    by code_simp
  ultimately show ?thesis by blast
qed

text \<open>
  C6. \<open>analyzeEmailWithAI\<close> never raises: it returns a result for every outcome of the
  remote call and every record, and every exception of its \<open>try\<close> block is converted into
  the fallback analysis that carries the exception's message; so it is for a transport
  failure, for a status that is not a success and for a body that is not JSON.
\<close>

theorem analyze_never_raises:
  "(\<exists>r. fst (analyzeEmailWithAI fetched clock sv emailData) = Inr r)
   \<and> (\<forall>err. fst (analysisAttempt fetched clock sv emailData) = Inl err
          \<longrightarrow> fst (analyzeEmailWithAI fetched clock sv emailData)
                = Inr (fallbackAnalysis err emailData))
   \<and> fst (analyzeEmailWithAI (NetworkFailure msg) clock sv emailData)
       = Inr (fallbackAnalysis (TypeError msg) emailData)
   \<and> (\<not> response_ok st
        \<longrightarrow> fst (analyzeEmailWithAI (HttpResponse st content) clock sv emailData)
              = Inr (fallbackAnalysis (Error (''Analysis failed: '' @ intToString (int st)))
                       emailData))
   \<and> (response_ok st
        \<longrightarrow> fst (analyzeEmailWithAI (HttpResponse st (InvalidJson msg)) clock sv emailData)
              = Inr (fallbackAnalysis (SyntaxError msg) emailData))"
proof (intro conjI allI impI)
  show "\<exists>r. fst (analyzeEmailWithAI fetched clock sv emailData) = Inr r"
    by (auto simp: analyzeEmailWithAI_def split: prod.splits sum.splits)
next
  fix err
  assume "fst (analysisAttempt fetched clock sv emailData) = Inl err"
  then show "fst (analyzeEmailWithAI fetched clock sv emailData)
               = Inr (fallbackAnalysis err emailData)"
    by (auto simp: analyzeEmailWithAI_def split: prod.splits sum.splits)
next
  show "fst (analyzeEmailWithAI (NetworkFailure msg) clock sv emailData)
          = Inr (fallbackAnalysis (TypeError msg) emailData)"
    by (simp add: analyzeEmailWithAI_def analysisAttempt_def Let_def)
next
  assume "\<not> response_ok st"
  then show "fst (analyzeEmailWithAI (HttpResponse st content) clock sv emailData)
               = Inr (fallbackAnalysis (Error (''Analysis failed: '' @ intToString (int st)))
                        emailData)"
    by (simp add: analyzeEmailWithAI_def analysisAttempt_def Let_def)
next
  assume "response_ok st"
  then show "fst (analyzeEmailWithAI (HttpResponse st (InvalidJson msg)) clock sv emailData)
               = Inr (fallbackAnalysis (SyntaxError msg) emailData)"
    by (simp add: analyzeEmailWithAI_def analysisAttempt_def Let_def)
qed

theorem analyze_never_raises_witness:
  "\<not> response_ok 503
   \<and> fst (analysisAttempt (HttpResponse 503 JsonNull) ''2024-05-01T10:00:01.000Z''
            idleService sampleEmail) = Inl (Error ''Analysis failed: 503'')
   \<and> fst (analyzeEmailWithAI (HttpResponse 503 JsonNull) ''2024-05-01T10:00:01.000Z''
            idleService sampleEmail)
       = Inr (fallbackAnalysis (Error ''Analysis failed: 503'') sampleEmail)"
proof -
  have h: "\<not> response_ok 503"
    by (simp add: response_ok_def)
  have k: "fst (analysisAttempt (HttpResponse 503 JsonNull) ''2024-05-01T10:00:01.000Z''
                 idleService sampleEmail) = Inl (Error ''Analysis failed: 503'')"
    using h intToString_503 by (simp add: analysisAttempt_def Let_def)
  show ?thesis
    using h k
      analyze_never_raises [of "HttpResponse 503 JsonNull" "''2024-05-01T10:00:01.000Z''"
        idleService sampleEmail "''''" 503 JsonNull]
    by blast
qed



text \<open>
  C8. Whenever \<open>extractEmailData\<close> returns a record, its subject has at most 200
  characters, its sender at most 100 and its body at most 5000, whichever way subject and
  sender were found.
\<close>

theorem extract_length_bounds:
  assumes "extractEmailData h element = Some emailData"
  shows "length (subject emailData) \<le> 200
       \<and> length (sender emailData) \<le> 100
       \<and> length (body emailData) \<le> 5000"
proof -
  obtain subj sndr bodyText where "emailData =
      \<lparr>email_id = getEmailId element, subject = slice0 subj 200, sender = slice0 sndr 100,
       body = slice0 bodyText 5000, timestamp = now h, url = href h\<rparr>"
    using extract_shape [OF assms] by blast
  then show ?thesis
    by (simp add: slice0_def)
qed

theorem extract_length_bounds_witness:
  "extractEmailData quietHost listRowNode = Some listRowRecord
   \<and> length (subject listRowRecord) \<le> 200
   \<and> length (sender listRowRecord) \<le> 100
   \<and> length (body listRowRecord) \<le> 5000
   \<and> length (subject listRowRecord) = 200
   \<and> length (sender listRowRecord) = 100"
proof -
  have "length (subject listRowRecord) = 200" and "length (sender listRowRecord) = 100"
    by (simp_all add: listRowRecord_def)
  then show ?thesis
    using extract_listRowNode extract_length_bounds [OF extract_listRowNode] by simp
qed

text \<open>
  C9. A successful remote analysis with a keyword and none of the further signals: the
  risk score is 90, no company name or website was extracted, and the sender is the
  placeholder \<open>Unknown Sender\<close> that \<open>extractEmailData\<close> puts where it finds no address.
  The test \<open>professionalSender\<close> accepts this sender, as it accepts an address at
  \<open>GMAIL.COM\<close> in capitals, so the returned \<open>isSponsor\<close> is true on the keyword alone.
  (\<open>isSponsor_only_if\<close> above says what a true \<open>isSponsor\<close> does need.)
\<close>

theorem keyword_alone_makes_sponsor:
  "response_ok 200
   \<and> hasKeywords proposalRecord
   \<and> riskScore riskyRemoteResult = Num 90
   \<and> infoField riskyRemoteResult companyName = None
   \<and> infoField riskyRemoteResult website = None
   \<and> sender proposalRecord = ''Unknown Sender''
   \<and> fst (analyzeEmailWithAI (HttpResponse 200 (JsonObject riskyRemoteResult))
            ''2024-05-01T10:00:01.000Z'' idleService proposalRecord)
       = Inr (riskyRemoteResult\<lparr>isSponsor := JBool True,
                originalEmail := Some proposalRecord,
                processedAt := Some ''2024-05-01T10:00:01.000Z''\<rparr>)
   \<and> determineSponsorStatus riskyRemoteResult (proposalRecord\<lparr>sender := ''ann@GMAIL.COM''\<rparr>)
       = JBool True"
proof -
  have "response_ok 200"
    by (simp add: response_ok_def)
  moreover have "hasKeywords proposalRecord"
    by code_simp
  moreover have "riskScore riskyRemoteResult = Num 90"
    and "infoField riskyRemoteResult companyName = None"
    and "infoField riskyRemoteResult website = None"
    by (simp_all add: riskyRemoteResult_def emptyResult_def infoField_def)
  moreover have "sender proposalRecord = ''Unknown Sender''"
    by (simp add: proposalRecord_def)
  moreover have "fst (analyzeEmailWithAI (HttpResponse 200 (JsonObject riskyRemoteResult))
            ''2024-05-01T10:00:01.000Z'' idleService proposalRecord)
       = Inr (riskyRemoteResult\<lparr>isSponsor := JBool True,
                originalEmail := Some proposalRecord,
                processedAt := Some ''2024-05-01T10:00:01.000Z''\<rparr>)"
    using \<open>infoField riskyRemoteResult website = None\<close>
    by (simp add: analyzeEmailWithAI_def analysisAttempt_def Let_def response_ok_def
        determine_proposalRecord url_proposalRecord strVal_def)
  moreover have "determineSponsorStatus riskyRemoteResult
                   (proposalRecord\<lparr>sender := ''ann@GMAIL.COM''\<rparr>) = JBool True"
    by code_simp
  ultimately show ?thesis by blast
qed

end
